theory Spec2Isabelle
  imports Main "HOL-Library.Word" "HOL-Library.AList"
begin

section \<open>Shared conventions\<close>

text \<open>
  The agent is written in Go. A Go \<^verbatim>\<open>error\<close> is modelled by its message, so an
  \<^verbatim>\<open>error\<close> result is a \<open>string option\<close> (\<open>None\<close> is \<^verbatim>\<open>nil\<close>) and a
  \<^verbatim>\<open>(value, error)\<close> result is the pair that Go returns, a pointer that may be
  \<^verbatim>\<open>nil\<close> being an option and a \<^verbatim>\<open>nil\<close> slice the empty list.
  \<^verbatim>\<open>fmt.Errorf("...: %w", err)\<close> appends the message of the wrapped error.
  Calls to the logger are left out: they change nothing the managers read.

  A \<^verbatim>\<open>time.Time\<close> is the number of nanoseconds since the Unix epoch, which is what
  \<^verbatim>\<open>UnixNano()\<close> returns. \<^verbatim>\<open>time.Now()\<close> reads the wall clock of the host: the
  readings are an input of the model, the \<open>k\<close>-th call of \<^verbatim>\<open>time.Now()\<close> returning
  \<open>clock k\<close>. Nothing is assumed about them (a wall clock can stand still between two
  reads, or be set back).
\<close>

type_synonym error = string
type_synonym Time = int

record Clock =
  clock :: "nat \<Rightarrow> Time"
  reads :: nat

definition time_Now :: "Clock \<Rightarrow> Time \<times> Clock" where
  "time_Now c = (clock c (reads c), c\<lparr>reads := Suc (reads c)\<rparr>)"

text \<open>The verb \<^verbatim>\<open>%d\<close> of \<^verbatim>\<open>fmt.Sprintf\<close> on an \<^verbatim>\<open>int64\<close>: decimal digits, with a
  minus sign when negative.\<close>

function string_of_nat :: "nat \<Rightarrow> string" where
  "string_of_nat n =
     (if n < 10 then [''0123456789'' ! n]
      else string_of_nat (n div 10) @ [''0123456789'' ! (n mod 10)])"
  by pat_completeness auto
termination
  by (relation "measure id") auto

declare string_of_nat.simps [simp del]

definition Sprintf_d :: "int \<Rightarrow> string" where
  "Sprintf_d i = (if i < 0 then ''-'' @ string_of_nat (nat (- i)) else string_of_nat (nat i))"

section \<open>Rule reconciler (package firewall)\<close>

subsection \<open>Data\<close>

record Rule =
  ID :: string
  Chain :: string
  Protocol :: string
  Source :: string
  Dest :: string
  SPort :: string
  DPort :: string
  Action :: string
  Comment :: string
  CreatedAt :: Time

record FirewallRule =
  Chain :: string
  Protocol :: string
  Source :: string
  Dest :: string
  SPort :: string
  DPort :: string
  Action :: string
  Comment :: string

record FirewallConfig =
  Backend :: string
  DefaultPolicy :: string
  EnableIPv6 :: bool
  SyncInterval :: int
  Rules :: "FirewallRule list"

text \<open>
  The interface \<^verbatim>\<open>Backend\<close>. What a backend talks to (the kernel's tables) is a state
  of type \<open>'b\<close> outside the manager; each method takes it and returns it. A method that
  gets a \<^verbatim>\<open>*Rule\<close> is handed the rule that the pointer points to: the backends of
  the source read the rule and do not write to it.
\<close>

record 'b Backend =
  backend_AddRule :: "Rule \<Rightarrow> 'b \<Rightarrow> error option \<times> 'b"
  backend_DeleteRule :: "Rule \<Rightarrow> 'b \<Rightarrow> error option \<times> 'b"
  backend_ListRules :: "'b \<Rightarrow> (Rule list \<times> error option) \<times> 'b"
  backend_Flush :: "'b \<Rightarrow> error option \<times> 'b"
  backend_SetDefaultPolicy :: "string \<Rightarrow> string \<Rightarrow> 'b \<Rightarrow> error option \<times> 'b"

text \<open>
  The struct \<^verbatim>\<open>Manager\<close>. The map \<^verbatim>\<open>rules\<close> is an association list with one entry
  per key: \<^verbatim>\<open>m.rules[k] = v\<close> is \<open>AList.update\<close>, \<^verbatim>\<open>delete(m.rules, k)\<close> is
  \<open>AList.delete\<close>, a lookup is \<open>map_of\<close>. Go leaves the order in which \<^verbatim>\<open>range\<close>
  visits a map open; the model visits the list in its order, and the theorems below speak
  of the set of what is visited. The channel \<^verbatim>\<open>stopChan\<close> is only ever closed, so it is
  the flag \<open>stopChan_closed\<close>. The mutex is left out: the operations are modelled one at
  a time.

  The values of the map are pointers (\<^verbatim>\<open>*Rule\<close>), here addresses. The records they
  point to lie in memory that the manager shares with its callers: a caller keeps the
  pointer it has passed to \<^verbatim>\<open>AddRule\<close> and gets the stored pointers from
  \<^verbatim>\<open>ListRules\<close> and \<^verbatim>\<open>GetRule\<close>. A pointer that is passed is not \<^verbatim>\<open>nil\<close>.
\<close>

type_synonym addr = nat

record 'b Manager =
  config :: FirewallConfig
  backend :: "'b Backend"
  rules :: "(string \<times> addr) list"
  stopChan_closed :: bool
  running :: bool

text \<open>
  Everything outside the manager: the backend's state, the calls made to the backend so
  far (kept to state which calls an operation makes), the clock, and the memory that
  holds the rules, where \<open>rule_heap w p\<close> is the record at the address \<open>p\<close> and
  \<open>next_rule w\<close> the first address that has not been handed out: \<^verbatim>\<open>&Rule{...}\<close> takes
  it for a new record.
\<close>

datatype BackendCall =
    CallAddRule Rule
  | CallDeleteRule Rule
  | CallListRules
  | CallFlush
  | CallSetDefaultPolicy string string

record 'b World =
  backend_state :: 'b
  calls :: "BackendCall list"
  wclock :: Clock
  rule_heap :: "addr \<Rightarrow> Rule"
  next_rule :: addr

definition new_Rule :: "Rule \<Rightarrow> 'b World \<Rightarrow> addr \<times> 'b World" where
  "new_Rule r w =
     (next_rule w,
      w\<lparr>rule_heap := (rule_heap w)(next_rule w := r), next_rule := Suc (next_rule w)\<rparr>)"

definition call_AddRule :: "'b Backend \<Rightarrow> Rule \<Rightarrow> 'b World \<Rightarrow> error option \<times> 'b World" where
  "call_AddRule be r w =
     (case backend_AddRule be r (backend_state w) of
        (err, s) \<Rightarrow> (err, w\<lparr>backend_state := s, calls := calls w @ [CallAddRule r]\<rparr>))"

definition call_DeleteRule :: "'b Backend \<Rightarrow> Rule \<Rightarrow> 'b World \<Rightarrow> error option \<times> 'b World" where
  "call_DeleteRule be r w =
     (case backend_DeleteRule be r (backend_state w) of
        (err, s) \<Rightarrow> (err, w\<lparr>backend_state := s, calls := calls w @ [CallDeleteRule r]\<rparr>))"

definition call_ListRules ::
  "'b Backend \<Rightarrow> 'b World \<Rightarrow> (Rule list \<times> error option) \<times> 'b World" where
  "call_ListRules be w =
     (case backend_ListRules be (backend_state w) of
        (res, s) \<Rightarrow> (res, w\<lparr>backend_state := s, calls := calls w @ [CallListRules]\<rparr>))"

definition call_SetDefaultPolicy ::
  "'b Backend \<Rightarrow> string \<Rightarrow> string \<Rightarrow> 'b World \<Rightarrow> error option \<times> 'b World" where
  "call_SetDefaultPolicy be chain policy w =
     (case backend_SetDefaultPolicy be chain policy (backend_state w) of
        (err, s) \<Rightarrow>
          (err, w\<lparr>backend_state := s, calls := calls w @ [CallSetDefaultPolicy chain policy]\<rparr>))"

text \<open>\<^verbatim>\<open>NewManager\<close>, after the backend named by the configuration has been built.\<close>

definition NewManager :: "FirewallConfig \<Rightarrow> 'b Backend \<Rightarrow> 'b Manager" where
  "NewManager cfg be =
     \<lparr>config = cfg, backend = be, rules = [], stopChan_closed = False, running = False\<rparr>"

text \<open>\<^verbatim>\<open>NFTablesBackend\<close>: the placeholder of the source, which has no state, accepts every
  call and lists no rule.\<close>

definition NFTablesBackend :: "unit Backend" where
  "NFTablesBackend =
     \<lparr>backend_AddRule = (\<lambda>rule s. (None, s)),
      backend_DeleteRule = (\<lambda>rule s. (None, s)),
      backend_ListRules = (\<lambda>s. (([], None), s)),
      backend_Flush = (\<lambda>s. (None, s)),
      backend_SetDefaultPolicy = (\<lambda>chain policy s. (None, s))\<rparr>"

subsection \<open>AddRule, DeleteRule, ListRules\<close>

definition generateRuleID :: "Clock \<Rightarrow> string \<times> Clock" where
  "generateRuleID c = (case time_Now c of (t, c') \<Rightarrow> (''rule-'' @ Sprintf_d t, c'))"

text \<open>The first lines of \<^verbatim>\<open>AddRule\<close>: an ID when the rule has none, and the time of
  creation. They write to the rule that the caller's pointer points to.\<close>

definition stamp :: "Rule \<Rightarrow> Clock \<Rightarrow> Rule \<times> Clock" where
  "stamp rule c =
     (case (if Rule.ID rule = [] then
              (case generateRuleID c of (i, c1) \<Rightarrow> (rule\<lparr>Rule.ID := i\<rparr>, c1))
            else (rule, c)) of
        (rule1, c1) \<Rightarrow>
          (case time_Now c1 of (t, c2) \<Rightarrow> (rule1\<lparr>CreatedAt := t\<rparr>, c2)))"

text \<open>\<^verbatim>\<open>AddRule\<close> gets a pointer. It writes the ID and the time through the pointer,
  then calls the backend with the rule, and stores the pointer when the call has
  succeeded.\<close>

definition AddRule ::
  "addr \<Rightarrow> 'b Manager \<times> 'b World \<Rightarrow> error option \<times> 'b Manager \<times> 'b World" where
  "AddRule rule mw =
     (case mw of (m, w) \<Rightarrow>
        (case stamp (rule_heap w rule) (wclock w) of (rule', c) \<Rightarrow>
           (case call_AddRule (backend m) rule'
                   (w\<lparr>wclock := c, rule_heap := (rule_heap w)(rule := rule')\<rparr>) of
              (Some e, w2) \<Rightarrow> (Some (''failed to add rule: '' @ e), m, w2)
            | (None, w2) \<Rightarrow>
                (None, m\<lparr>rules := AList.update (Rule.ID rule') rule (rules m)\<rparr>, w2))))"

definition DeleteRule ::
  "string \<Rightarrow> 'b Manager \<times> 'b World \<Rightarrow> error option \<times> 'b Manager \<times> 'b World" where
  "DeleteRule ruleID mw =
     (case mw of (m, w) \<Rightarrow>
        (case map_of (rules m) ruleID of
           None \<Rightarrow> (Some (''rule not found: '' @ ruleID), m, w)
         | Some rule \<Rightarrow>
             (case call_DeleteRule (backend m) (rule_heap w rule) w of
                (Some e, w1) \<Rightarrow> (Some (''failed to delete rule: '' @ e), m, w1)
              | (None, w1) \<Rightarrow> (None, m\<lparr>rules := AList.delete ruleID (rules m)\<rparr>, w1))))"

text \<open>\<^verbatim>\<open>ListRules\<close> returns the stored pointers; \<open>listed_rules\<close> is what they point
  to.\<close>

definition ListRules :: "'b Manager \<Rightarrow> addr list" where
  "ListRules m = map snd (rules m)"

definition listed_rules :: "'b Manager \<Rightarrow> 'b World \<Rightarrow> Rule list" where
  "listed_rules m w = map (rule_heap w) (ListRules m)"

subsection \<open>Start and Stop\<close>

text \<open>\<^verbatim>\<open>setDefaultPolicies\<close>: the loop over the three chains stops at the first error.\<close>

fun setPolicies :: "'b Backend \<Rightarrow> string \<Rightarrow> string list \<Rightarrow> 'b World \<Rightarrow> error option \<times> 'b World" where
  "setPolicies be policy [] w = (None, w)"
| "setPolicies be policy (chain # rest) w =
     (case call_SetDefaultPolicy be chain policy w of
        (Some e, w1) \<Rightarrow> (Some (''failed to set default policy for '' @ chain @ '': '' @ e), w1)
      | (None, w1) \<Rightarrow> setPolicies be policy rest w1)"

definition setDefaultPolicies :: "'b Manager \<Rightarrow> 'b World \<Rightarrow> error option \<times> 'b World" where
  "setDefaultPolicies m w =
     setPolicies (backend m)
       (if DefaultPolicy (config m) = ''deny'' then ''DROP'' else ''ACCEPT'')
       [''INPUT'', ''FORWARD'', ''OUTPUT''] w"

text \<open>\<^verbatim>\<open>loadConfigRules\<close> builds a new rule for every rule of the configuration; a
  rule that cannot be added is logged and skipped.\<close>

definition rule_of_config :: "FirewallRule \<Rightarrow> Rule" where
  "rule_of_config c =
     \<lparr>Rule.ID = [], Chain = FirewallRule.Chain c, Protocol = FirewallRule.Protocol c,
      Source = FirewallRule.Source c, Dest = FirewallRule.Dest c,
      SPort = FirewallRule.SPort c, DPort = FirewallRule.DPort c,
      Action = FirewallRule.Action c, Comment = FirewallRule.Comment c, CreatedAt = 0\<rparr>"

fun loadRules :: "FirewallRule list \<Rightarrow> 'b Manager \<times> 'b World \<Rightarrow> 'b Manager \<times> 'b World" where
  "loadRules [] mw = mw"
| "loadRules (c # cs) mw =
     (case new_Rule (rule_of_config c) (snd mw) of
        (rule, w1) \<Rightarrow> loadRules cs (snd (AddRule rule (fst mw, w1))))"

definition loadConfigRules ::
  "'b Manager \<times> 'b World \<Rightarrow> error option \<times> 'b Manager \<times> 'b World" where
  "loadConfigRules mw = (None, loadRules (Rules (config (fst mw))) mw)"

text \<open>\<^verbatim>\<open>Start\<close>. The last statement starts \<^verbatim>\<open>syncLoop\<close> as a goroutine, which calls
  \<^verbatim>\<open>sync\<close> at every tick; a tick is a call of \<open>sync\<close> below.\<close>

definition Firewall_Start ::
  "'b Manager \<times> 'b World \<Rightarrow> error option \<times> 'b Manager \<times> 'b World" where
  "Firewall_Start mw =
     (case mw of (m, w) \<Rightarrow>
        if running m then (Some ''firewall manager is already running'', m, w)
        else
          (let m1 = m\<lparr>running := True\<rparr> in
           case setDefaultPolicies m1 w of
             (Some e, w1) \<Rightarrow> (Some (''failed to set default policies: '' @ e), m1, w1)
           | (None, w1) \<Rightarrow>
               (case loadConfigRules (m1, w1) of
                  (Some e, m2, w2) \<Rightarrow> (Some (''failed to load config rules: '' @ e), m2, w2)
                | (None, m2, w2) \<Rightarrow> (None, m2, w2))))"

text \<open>\<^verbatim>\<open>Stop\<close> closes \<^verbatim>\<open>stopChan\<close>; closing a channel that is closed already panics in
  Go, so the result of a stop is a panic or a returned error value.\<close>

datatype 'a outcome = Panics string | Returns 'a

definition Firewall_Stop ::
  "'b Manager \<times> 'b World \<Rightarrow> error option outcome \<times> 'b Manager \<times> 'b World" where
  "Firewall_Stop mw =
     (case mw of (m, w) \<Rightarrow>
        if \<not> running m then (Returns (Some ''firewall manager is not running''), m, w)
        else
          (let m1 = m\<lparr>running := False\<rparr> in
           if stopChan_closed m1 then (Panics ''close of closed channel'', m1, w)
           else (Returns None, m1\<lparr>stopChan_closed := True\<rparr>, w)))"

subsection \<open>The periodic sync\<close>

definition rulesEqual :: "Rule \<Rightarrow> Rule \<Rightarrow> bool" where
  "rulesEqual r1 r2 \<longleftrightarrow>
     Rule.Chain r1 = Rule.Chain r2 \<and>
     Rule.Protocol r1 = Rule.Protocol r2 \<and>
     Rule.Source r1 = Rule.Source r2 \<and>
     Rule.Dest r1 = Rule.Dest r2 \<and>
     Rule.SPort r1 = Rule.SPort r2 \<and>
     Rule.DPort r1 = Rule.DPort r2 \<and>
     Rule.Action r1 = Rule.Action r2"

text \<open>The inner loop of \<^verbatim>\<open>sync\<close>: is a rule equal to \<open>rule\<close> among the backend's?\<close>

fun found :: "Rule \<Rightarrow> Rule list \<Rightarrow> bool" where
  "found rule [] = False"
| "found rule (backendRule # backendRules) =
     (if rulesEqual rule backendRule then True else found rule backendRules)"

text \<open>The outer loop, over the pointers of the store: a rule that is not found is
  added again, and an error of that call is logged only.\<close>

fun sync_rules :: "'b Backend \<Rightarrow> Rule list \<Rightarrow> addr list \<Rightarrow> 'b World \<Rightarrow> 'b World" where
  "sync_rules be backendRules [] w = w"
| "sync_rules be backendRules (rule # rs) w =
     (if found (rule_heap w rule) backendRules then sync_rules be backendRules rs w
      else sync_rules be backendRules rs (snd (call_AddRule be (rule_heap w rule) w)))"

definition sync :: "'b Manager \<times> 'b World \<Rightarrow> error option \<times> 'b Manager \<times> 'b World" where
  "sync mw =
     (case mw of (m, w) \<Rightarrow>
        (case call_ListRules (backend m) w of
           ((backendRules, Some e), w1) \<Rightarrow>
             (Some (''failed to list backend rules: '' @ e), m, w1)
         | ((backendRules, None), w1) \<Rightarrow>
             (None, m, sync_rules (backend m) backendRules (map snd (rules m)) w1)))"


section \<open>Service registry manager and instance selection (package servicemesh)\<close>

subsection \<open>Data\<close>

text \<open>\<^verbatim>\<open>ServiceStatus\<close> is a string type with three named values.\<close>

type_synonym ServiceStatus = string

definition StatusHealthy :: ServiceStatus where "StatusHealthy = ''healthy''"
definition StatusUnhealthy :: ServiceStatus where "StatusUnhealthy = ''unhealthy''"
definition StatusUnknown :: ServiceStatus where "StatusUnknown = ''unknown''"

record HealthCheck =
  Type :: string
  Endpoint :: string
  Interval :: int
  Timeout :: int

record Service =
  ID :: string
  Name :: string
  Address :: string
  Port :: int
  Tags :: "string list"
  Meta :: "(string \<times> string) list"
  HealthCheck :: "HealthCheck option"
  Status :: ServiceStatus
  RegisteredAt :: Time
  LastSeen :: Time

subsection \<open>Load balancers\<close>

text \<open>
  \<^verbatim>\<open>RoundRobinLoadBalancer.Select\<close>. The counter is a \<^verbatim>\<open>uint64\<close>;
  \<^verbatim>\<open>atomic.AddUint64\<close> adds one, wrapping, and returns the new value. The length of
  a slice is converted to \<^verbatim>\<open>uint64\<close>, and the index is the remainder.
\<close>

definition RoundRobin_Select ::
  "Service list \<Rightarrow> 64 word \<Rightarrow> (Service option \<times> error option) \<times> 64 word" where
  "RoundRobin_Select services counter =
     (if length services = 0 then ((None, Some ''no services available''), counter)
      else
        (let new = counter + 1;
             index = new mod (word_of_nat (length services))
         in ((Some (services ! unat index), None), new)))"

text \<open>
  \<^verbatim>\<open>LeastConnLoadBalancer\<close>: the map \<^verbatim>\<open>connections\<close> from service IDs to
  \<^verbatim>\<open>int64\<close> counts. Reading a key that is absent gives 0. The comparisons are the
  signed ones, and \<^verbatim>\<open>++\<close> and \<^verbatim>\<open>--\<close> wrap.
\<close>

type_synonym connections = "string \<rightharpoonup> 64 word"

definition conn_of :: "connections \<Rightarrow> string \<Rightarrow> 64 word" where
  "conn_of conns k = (case conns k of None \<Rightarrow> 0 | Some c \<Rightarrow> c)"

text \<open>The loop of \<^verbatim>\<open>Select\<close>, on the pair of \<^verbatim>\<open>selected\<close> and \<^verbatim>\<open>minConn\<close>.\<close>

fun leastConn_loop ::
  "connections \<Rightarrow> Service list \<Rightarrow> Service option \<times> 64 word \<Rightarrow> Service option \<times> 64 word" where
  "leastConn_loop conns [] acc = acc"
| "leastConn_loop conns (service # rest) (selected, minConn) =
     (let conn = conn_of conns (Service.ID service) in
      if minConn = - 1 \<or> conn <s minConn then leastConn_loop conns rest (Some service, conn)
      else leastConn_loop conns rest (selected, minConn))"

definition LeastConn_Select ::
  "Service list \<Rightarrow> connections \<Rightarrow> (Service option \<times> error option) \<times> connections" where
  "LeastConn_Select services conns =
     (if length services = 0 then ((None, Some ''no services available''), conns)
      else
        (case fst (leastConn_loop conns services (None, - 1)) of
           None \<Rightarrow> ((None, None), conns)
         | Some selected \<Rightarrow>
             ((Some selected, None),
              conns(Service.ID selected \<mapsto> conn_of conns (Service.ID selected) + 1))))"

definition ReleaseConnection :: "string \<Rightarrow> connections \<Rightarrow> connections" where
  "ReleaseConnection serviceID conns =
     (case conns serviceID of
        None \<Rightarrow> conns
      | Some count \<Rightarrow> if 0 <s count then conns(serviceID \<mapsto> count - 1) else conns)"

text \<open>
  \<^verbatim>\<open>RandomLoadBalancer\<close> and \<^verbatim>\<open>WeightedLoadBalancer\<close> both index the list with
  \<^verbatim>\<open>rand.Intn(len(services))\<close>. The random source is an input like the clock: the
  \<open>k\<close>-th draw is \<open>draws k\<close>, reduced to the range that \<^verbatim>\<open>Intn\<close> promises.
\<close>

record Rand =
  draws :: "nat \<Rightarrow> nat"
  drawn :: nat

definition Intn :: "nat \<Rightarrow> Rand \<Rightarrow> nat \<times> Rand" where
  "Intn n r = (draws r (drawn r) mod n, r\<lparr>drawn := Suc (drawn r)\<rparr>)"

definition Random_Select ::
  "Service list \<Rightarrow> Rand \<Rightarrow> (Service option \<times> error option) \<times> Rand" where
  "Random_Select services r =
     (if length services = 0 then ((None, Some ''no services available''), r)
      else (case Intn (length services) r of (index, r') \<Rightarrow> ((Some (services ! index), None), r')))"

text \<open>The interface \<^verbatim>\<open>LoadBalancer\<close> has the four implementations that
  \<^verbatim>\<open>NewLoadBalancer\<close> can return.\<close>

datatype LoadBalancer =
    RoundRobinLoadBalancer "64 word"
  | LeastConnLoadBalancer connections
  | RandomLoadBalancer Rand
  | WeightedLoadBalancer Rand

definition NewLoadBalancer :: "string \<Rightarrow> Rand \<Rightarrow> LoadBalancer" where
  "NewLoadBalancer strategy r =
     (if strategy = ''round_robin'' then RoundRobinLoadBalancer 0
      else if strategy = ''least_conn'' then LeastConnLoadBalancer Map.empty
      else if strategy = ''random'' then RandomLoadBalancer r
      else if strategy = ''weighted'' then WeightedLoadBalancer r
      else RoundRobinLoadBalancer 0)"

fun Select :: "LoadBalancer \<Rightarrow> Service list \<Rightarrow> (Service option \<times> error option) \<times> LoadBalancer" where
  "Select (RoundRobinLoadBalancer counter) services =
     (case RoundRobin_Select services counter of (res, c) \<Rightarrow> (res, RoundRobinLoadBalancer c))"
| "Select (LeastConnLoadBalancer conns) services =
     (case LeastConn_Select services conns of (res, c) \<Rightarrow> (res, LeastConnLoadBalancer c))"
| "Select (RandomLoadBalancer r) services =
     (case Random_Select services r of (res, r') \<Rightarrow> (res, RandomLoadBalancer r'))"
| "Select (WeightedLoadBalancer r) services =
     (case Random_Select services r of (res, r') \<Rightarrow> (res, WeightedLoadBalancer r'))"

subsection \<open>The manager\<close>

text \<open>The interface \<^verbatim>\<open>Discovery\<close>, over the state \<open>'d\<close> of the registry it talks to.
  \<^verbatim>\<open>Watch\<close> returns a channel that no code of the manager reads, and is left out.\<close>

record 'd Discovery =
  discovery_Register :: "Service \<Rightarrow> 'd \<Rightarrow> error option \<times> 'd"
  discovery_Deregister :: "string \<Rightarrow> 'd \<Rightarrow> error option \<times> 'd"
  discovery_Discover :: "string \<Rightarrow> 'd \<Rightarrow> (Service list \<times> error option) \<times> 'd"

text \<open>The struct \<^verbatim>\<open>Manager\<close> of this package. As in the rule reconciler, the map
  \<^verbatim>\<open>services\<close> holds pointers (\<^verbatim>\<open>*Service\<close>), here addresses, to records in memory
  that the manager shares with its callers: \<open>service_heap w p\<close> is the record at the
  address \<open>p\<close>. The registry is handed the record that a pointer points to; no
  registry of the source writes to it.\<close>

record 'd MeshManager =
  discovery :: "'d Discovery"
  loadBalance :: LoadBalancer
  services :: "(string \<times> addr) list"
  stopChan_closed :: bool
  running :: bool

record 'd MeshWorld =
  discovery_state :: 'd
  mclock :: Clock
  service_heap :: "addr \<Rightarrow> Service"

definition call_Register :: "'d Discovery \<Rightarrow> Service \<Rightarrow> 'd MeshWorld \<Rightarrow> error option \<times> 'd MeshWorld" where
  "call_Register d service w =
     (case discovery_Register d service (discovery_state w) of
        (err, s) \<Rightarrow> (err, w\<lparr>discovery_state := s\<rparr>))"

definition call_Deregister :: "'d Discovery \<Rightarrow> string \<Rightarrow> 'd MeshWorld \<Rightarrow> error option \<times> 'd MeshWorld" where
  "call_Deregister d serviceID w =
     (case discovery_Deregister d serviceID (discovery_state w) of
        (err, s) \<Rightarrow> (err, w\<lparr>discovery_state := s\<rparr>))"

definition call_Discover ::
  "'d Discovery \<Rightarrow> string \<Rightarrow> 'd MeshWorld \<Rightarrow> (Service list \<times> error option) \<times> 'd MeshWorld" where
  "call_Discover d serviceName w =
     (case discovery_Discover d serviceName (discovery_state w) of
        (res, s) \<Rightarrow> (res, w\<lparr>discovery_state := s\<rparr>))"

text \<open>The manager of \<^verbatim>\<open>NewManager\<close>, after the discovery backend has been built.\<close>

definition NewMeshManager :: "'d Discovery \<Rightarrow> LoadBalancer \<Rightarrow> 'd MeshManager" where
  "NewMeshManager d lb =
     \<lparr>discovery = d, loadBalance = lb, services = [],
      stopChan_closed = False, running = False\<rparr>"

definition generateServiceID :: "string \<Rightarrow> Clock \<Rightarrow> string \<times> Clock" where
  "generateServiceID serviceName c =
     (case time_Now c of (t, c') \<Rightarrow> (serviceName @ ''-'' @ Sprintf_d t, c'))"

text \<open>The first lines of \<^verbatim>\<open>RegisterService\<close>: an ID when the service has none, the
  two times, and the status, which is \<^verbatim>\<open>StatusUnknown\<close> for every service. They write
  to the service that the caller's pointer points to.\<close>

definition stamp_service :: "Service \<Rightarrow> Clock \<Rightarrow> Service \<times> Clock" where
  "stamp_service service c =
     (case (if Service.ID service = [] then
              (case generateServiceID (Name service) c of
                 (i, c1) \<Rightarrow> (service\<lparr>Service.ID := i\<rparr>, c1))
            else (service, c)) of
        (s1, c1) \<Rightarrow>
          (case time_Now c1 of (t1, c2) \<Rightarrow>
             (case time_Now c2 of (t2, c3) \<Rightarrow>
                (s1\<lparr>RegisteredAt := t1, LastSeen := t2, Status := StatusUnknown\<rparr>, c3))))"

text \<open>\<^verbatim>\<open>RegisterService\<close> gets a pointer. It writes the ID, the times and the status
  through the pointer, then calls the registry with the service, and stores the pointer
  when the call has succeeded.\<close>

definition RegisterService ::
  "addr \<Rightarrow> 'd MeshManager \<times> 'd MeshWorld \<Rightarrow> error option \<times> 'd MeshManager \<times> 'd MeshWorld" where
  "RegisterService service mw =
     (case mw of (m, w) \<Rightarrow>
        (case stamp_service (service_heap w service) (mclock w) of (service', c) \<Rightarrow>
           (case call_Register (discovery m) service'
                   (w\<lparr>mclock := c, service_heap := (service_heap w)(service := service')\<rparr>) of
              (Some e, w2) \<Rightarrow> (Some (''failed to register service: '' @ e), m, w2)
            | (None, w2) \<Rightarrow>
                (None, m\<lparr>services := AList.update (Service.ID service') service (services m)\<rparr>,
                 w2))))"

text \<open>\<^verbatim>\<open>ListServices\<close> returns the stored pointers; \<open>listed_services\<close> is what they
  point to.\<close>

definition ListServices :: "'d MeshManager \<Rightarrow> addr list" where
  "ListServices m = map snd (services m)"

definition listed_services :: "'d MeshManager \<Rightarrow> 'd MeshWorld \<Rightarrow> Service list" where
  "listed_services m w = map (service_heap w) (ListServices m)"

text \<open>\<^verbatim>\<open>UpdateServiceStatus\<close> writes the status and the time to the stored
  service, through the stored pointer.\<close>

definition UpdateServiceStatus ::
  "string \<Rightarrow> ServiceStatus \<Rightarrow> 'd MeshManager \<times> 'd MeshWorld \<Rightarrow>
   error option \<times> 'd MeshManager \<times> 'd MeshWorld" where
  "UpdateServiceStatus serviceID status mw =
     (case mw of (m, w) \<Rightarrow>
        (case map_of (services m) serviceID of
           None \<Rightarrow> (Some (''service not found: '' @ serviceID), m, w)
         | Some service \<Rightarrow>
             (case time_Now (mclock w) of (t, c) \<Rightarrow>
                (None, m,
                 w\<lparr>mclock := c,
                   service_heap := (service_heap w)
                     (service := (service_heap w service)\<lparr>Status := status, LastSeen := t\<rparr>)\<rparr>))))"

definition DiscoverService ::
  "string \<Rightarrow> 'd MeshManager \<times> 'd MeshWorld \<Rightarrow> (Service list \<times> error option) \<times> 'd MeshWorld" where
  "DiscoverService serviceName mw =
     (case mw of (m, w) \<Rightarrow>
        (case call_Discover (discovery m) serviceName w of
           ((found_services, Some e), w1) \<Rightarrow>
             (([], Some (''failed to discover service: '' @ e)), w1)
         | ((found_services, None), w1) \<Rightarrow> ((found_services, None), w1)))"

definition SelectService ::
  "string \<Rightarrow> 'd MeshManager \<times> 'd MeshWorld \<Rightarrow>
   (Service option \<times> error option) \<times> 'd MeshManager \<times> 'd MeshWorld" where
  "SelectService serviceName mw =
     (case DiscoverService serviceName mw of
        ((found_services, Some e), w1) \<Rightarrow> ((None, Some e), fst mw, w1)
      | ((found_services, None), w1) \<Rightarrow>
          if length found_services = 0 then
            ((None, Some (''no instances found for service: '' @ serviceName)), fst mw, w1)
          else
            (let healthyServices = filter (\<lambda>service. Status service = StatusHealthy) found_services in
             if length healthyServices = 0 then
               ((None, Some (''no healthy instances found for service: '' @ serviceName)),
                fst mw, w1)
             else
               (case Select (loadBalance (fst mw)) healthyServices of
                  (res, lb) \<Rightarrow> (res, (fst mw)\<lparr>loadBalance := lb\<rparr>, w1))))"

text \<open>\<^verbatim>\<open>Start\<close> starts the goroutine \<^verbatim>\<open>discoveryLoop\<close> and returns.\<close>

definition ServiceMesh_Start ::
  "'d MeshManager \<times> 'd MeshWorld \<Rightarrow> error option \<times> 'd MeshManager \<times> 'd MeshWorld" where
  "ServiceMesh_Start mw =
     (case mw of (m, w) \<Rightarrow>
        if MeshManager.running m then (Some ''service mesh manager is already running'', m, w)
        else (None, m\<lparr>MeshManager.running := True\<rparr>, w))"

text \<open>\<^verbatim>\<open>Stop\<close> deregisters every stored service; an error of a call is logged only.\<close>

fun deregister_all :: "'d Discovery \<Rightarrow> addr list \<Rightarrow> 'd MeshWorld \<Rightarrow> 'd MeshWorld" where
  "deregister_all d [] w = w"
| "deregister_all d (service # rest) w =
     deregister_all d rest (snd (call_Deregister d (Service.ID (service_heap w service)) w))"

definition ServiceMesh_Stop ::
  "'d MeshManager \<times> 'd MeshWorld \<Rightarrow> error option outcome \<times> 'd MeshManager \<times> 'd MeshWorld" where
  "ServiceMesh_Stop mw =
     (case mw of (m, w) \<Rightarrow>
        if \<not> MeshManager.running m then
          (Returns (Some ''service mesh manager is not running''), m, w)
        else
          (let m1 = m\<lparr>MeshManager.running := False\<rparr>;
               w1 = deregister_all (discovery m1) (map snd (services m1)) w
           in if MeshManager.stopChan_closed m1 then (Panics ''close of closed channel'', m1, w1)
              else (Returns None, m1\<lparr>MeshManager.stopChan_closed := True\<rparr>, w1)))"

text \<open>
  \<^verbatim>\<open>StaticDiscovery\<close>: a map from names to the services registered under them, as an
  association list. \<^verbatim>\<open>Deregister\<close> removes the first service with the ID from the
  first name that has one. The lists hold the services as they were handed to
  \<^verbatim>\<open>Register\<close>; the source keeps the pointers, so that there a later write to a
  registered service shows in what \<^verbatim>\<open>Discover\<close> returns. Nothing below looks a
  service up in this registry after a write to it.
\<close>

type_synonym static_state = "(string \<times> Service list) list"

definition static_lookup :: "static_state \<Rightarrow> string \<Rightarrow> Service list" where
  "static_lookup st name = (case map_of st name of None \<Rightarrow> [] | Some l \<Rightarrow> l)"

fun remove_first :: "string \<Rightarrow> Service list \<Rightarrow> Service list option" where
  "remove_first serviceID [] = None"
| "remove_first serviceID (service # rest) =
     (if Service.ID service = serviceID then Some rest
      else map_option ((#) service) (remove_first serviceID rest))"

fun static_deregister :: "string \<Rightarrow> static_state \<Rightarrow> static_state option" where
  "static_deregister serviceID [] = None"
| "static_deregister serviceID ((name, l) # st) =
     (case remove_first serviceID l of
        Some l' \<Rightarrow> Some ((name, l') # st)
      | None \<Rightarrow> map_option ((#) (name, l)) (static_deregister serviceID st))"

definition StaticDiscovery :: "static_state Discovery" where
  "StaticDiscovery =
     \<lparr>discovery_Register =
        (\<lambda>service st.
           (None, AList.update (Name service) (static_lookup st (Name service) @ [service]) st)),
      discovery_Deregister =
        (\<lambda>serviceID st.
           case static_deregister serviceID st of
             Some st' \<Rightarrow> (None, st')
           | None \<Rightarrow> (Some (''service not found: '' @ serviceID), st)),
      discovery_Discover = (\<lambda>serviceName st. ((static_lookup st serviceName, None), st))\<rparr>"

section \<open>Health monitor (package health)\<close>

text \<open>
  \<^verbatim>\<open>CheckStatus\<close> is a string type with three named values. The counter
  \<^verbatim>\<open>Failures\<close> is a Go \<^verbatim>\<open>int\<close>, 64 bits wide on the platforms the agent is built
  for. The field \<^verbatim>\<open>callback\<close> holds a function or \<^verbatim>\<open>nil\<close>; the code only tests
  it and starts it as a goroutine, which the model records as the status handed to it.
\<close>

type_synonym CheckStatus = string

definition StatusPassing :: CheckStatus where "StatusPassing = ''passing''"
definition StatusWarning :: CheckStatus where "StatusWarning = ''warning''"
definition StatusCritical :: CheckStatus where "StatusCritical = ''critical''"

record Check =
  ID :: string
  Type :: string
  Target :: string
  Interval :: int
  Timeout :: int
  Status :: CheckStatus
  LastCheck :: Time
  Failures :: "64 word"
  callback :: bool

record Checker =
  checks :: "(string \<times> Check) list"
  stopChan_closed :: bool
  running :: bool

text \<open>Outside the checker: the clock, the check loops that have been started (by the ID
  of their check) and the statuses handed to callbacks.\<close>

record CheckerWorld =
  cclock :: Clock
  loops :: "string list"
  callbacks :: "(string \<times> CheckStatus) list"

definition NewChecker :: Checker where
  "NewChecker = \<lparr>checks = [], stopChan_closed = False, running = False\<rparr>"

definition Checker_Start :: "Checker \<times> CheckerWorld \<Rightarrow> error option \<times> Checker \<times> CheckerWorld" where
  "Checker_Start cw =
     (case cw of (c, w) \<Rightarrow>
        if Checker.running c then (Some ''health checker is already running'', c, w)
        else (None, c\<lparr>Checker.running := True\<rparr>, w\<lparr>loops := loops w @ map fst (checks c)\<rparr>))"

definition Checker_Stop ::
  "Checker \<times> CheckerWorld \<Rightarrow> error option outcome \<times> Checker \<times> CheckerWorld" where
  "Checker_Stop cw =
     (case cw of (c, w) \<Rightarrow>
        if \<not> Checker.running c then (Returns (Some ''health checker is not running''), c, w)
        else
          (let c1 = c\<lparr>Checker.running := False\<rparr> in
           if Checker.stopChan_closed c1 then (Panics ''close of closed channel'', c1, w)
           else (Returns None, c1\<lparr>Checker.stopChan_closed := True\<rparr>, w)))"

definition generateCheckID :: "Clock \<Rightarrow> string \<times> Clock" where
  "generateCheckID c = (case time_Now c of (t, c') \<Rightarrow> (''check-'' @ Sprintf_d t, c'))"

text \<open>\<^verbatim>\<open>AddCheck\<close>; 10 and 5 seconds are the defaults, in nanoseconds. It returns the
  error (always \<^verbatim>\<open>nil\<close>), the caller's check as written to, the checker and the world.\<close>

definition AddCheck ::
  "Check \<Rightarrow> Checker \<times> CheckerWorld \<Rightarrow> error option \<times> Check \<times> Checker \<times> CheckerWorld" where
  "AddCheck check cw =
     (case cw of (c, w) \<Rightarrow>
        (case (if Check.ID check = [] then
                 (case generateCheckID (cclock w) of (i, k1) \<Rightarrow> (check\<lparr>Check.ID := i\<rparr>, k1))
               else (check, cclock w)) of
           (c1, k1) \<Rightarrow>
             (let c2 = (if Check.Interval c1 = 0 then c1\<lparr>Check.Interval := 10 * 1000000000\<rparr> else c1);
                  c3 = (if Check.Timeout c2 = 0 then c2\<lparr>Check.Timeout := 5 * 1000000000\<rparr> else c2)
              in case time_Now k1 of (t, k2) \<Rightarrow>
                   (let c4 = c3\<lparr>Check.Status := StatusPassing, LastCheck := t\<rparr>;
                        c' = c\<lparr>checks := AList.update (Check.ID c4) c4 (checks c)\<rparr>;
                        w' = w\<lparr>cclock := k2\<rparr>
                    in (None, c4, c',
                        if Checker.running c then w'\<lparr>loops := loops w' @ [Check.ID c4]\<rparr>
                        else w')))))"

text \<open>The probes. What the network answers is an input: the result of the GET request
  (an error, or a response with its status code) and the result of dialling.\<close>

datatype HTTPResult = GetError error | Response int

record Network =
  http_Get :: HTTPResult
  tcp_Dial :: "error option"

definition checkHTTP :: "Network \<Rightarrow> error option" where
  "checkHTTP net =
     (case http_Get net of
        GetError e \<Rightarrow> Some (''HTTP check failed: '' @ e)
      | Response code \<Rightarrow>
          if code < 200 \<or> code \<ge> 300 then Some (''HTTP check returned status '' @ Sprintf_d code)
          else None)"

definition checkTCP :: "Network \<Rightarrow> error option" where
  "checkTCP net =
     (case tcp_Dial net of Some e \<Rightarrow> Some (''TCP check failed: '' @ e) | None \<Rightarrow> None)"

definition checkGRPC :: "Network \<Rightarrow> error option" where
  "checkGRPC net = None"

text \<open>The second half of \<^verbatim>\<open>performCheck\<close>: what the result of a probe does to the
  check.\<close>

definition record_result :: "error option \<Rightarrow> Check \<Rightarrow> Check" where
  "record_result err check =
     (case err of
        Some e \<Rightarrow>
          (let c1 = check\<lparr>Failures := Failures check + 1\<rparr> in
           if 3 \<le>s Failures c1 then c1\<lparr>Check.Status := StatusCritical\<rparr>
           else c1\<lparr>Check.Status := StatusWarning\<rparr>)
      | None \<Rightarrow> check\<lparr>Failures := 0, Check.Status := StatusPassing\<rparr>)"

text \<open>\<^verbatim>\<open>performCheck\<close> works on the check that the loop holds, which is the one in
  the checker's map for as long as it has not been removed. A type that is not known
  ends the call after the time has been written.\<close>

definition performCheck :: "Network \<Rightarrow> Check \<Rightarrow> CheckerWorld \<Rightarrow> Check \<times> CheckerWorld" where
  "performCheck net check w =
     (case time_Now (cclock w) of (t, k) \<Rightarrow>
        (let c1 = check\<lparr>LastCheck := t\<rparr>; w1 = w\<lparr>cclock := k\<rparr> in
         case (if Check.Type c1 = ''http'' then Some (checkHTTP net)
               else if Check.Type c1 = ''tcp'' then Some (checkTCP net)
               else if Check.Type c1 = ''grpc'' then Some (checkGRPC net)
               else None) of
           None \<Rightarrow> (c1, w1)
         | Some err \<Rightarrow>
             (let c2 = record_result err c1
              in (c2, if callback c2
                      then w1\<lparr>callbacks := callbacks w1 @ [(Check.ID c2, Check.Status c2)]\<rparr>
                      else w1))))"

section \<open>Sequences of operations\<close>

text \<open>A caller's sequence of \<^verbatim>\<open>AddRule\<close> and \<^verbatim>\<open>DeleteRule\<close> calls on the rule
  reconciler, each call made whatever the one before returned. Every rule that is added
  is a new record, as the rules are that the API server decodes from a request.\<close>

datatype RuleOp = OpAddRule Rule | OpDeleteRule string

fun apply_RuleOp :: "RuleOp \<Rightarrow> 'b Manager \<times> 'b World \<Rightarrow> 'b Manager \<times> 'b World" where
  "apply_RuleOp (OpAddRule rule) mw =
     (case new_Rule rule (snd mw) of (p, w1) \<Rightarrow> snd (AddRule p (fst mw, w1)))"
| "apply_RuleOp (OpDeleteRule ruleID) mw = snd (DeleteRule ruleID mw)"

fun run_RuleOps :: "RuleOp list \<Rightarrow> 'b Manager \<times> 'b World \<Rightarrow> 'b Manager \<times> 'b World" where
  "run_RuleOps [] mw = mw"
| "run_RuleOps (operation # ops) mw = run_RuleOps ops (apply_RuleOp operation mw)"

text \<open>
  What the specification expects \<^verbatim>\<open>ListRules\<close> to hold after such a sequence, written
  from its words and not from the store: the rules that were added (as \<^verbatim>\<open>AddRule\<close>
  stamps them, the clock being read as the calls read it) and not deleted afterwards, a
  deletion removing the rules that carry the ID.
\<close>

fun added_not_deleted :: "RuleOp list \<Rightarrow> Clock \<Rightarrow> Rule list \<Rightarrow> Rule list" where
  "added_not_deleted [] c acc = acc"
| "added_not_deleted (OpAddRule rule # ops) c acc =
     (case stamp rule c of (rule', c') \<Rightarrow> added_not_deleted ops c' (acc @ [rule']))"
| "added_not_deleted (OpDeleteRule ruleID # ops) c acc =
     added_not_deleted ops c (filter (\<lambda>r. Rule.ID r \<noteq> ruleID) acc)"

text \<open>No rule is added under an ID that a rule added before it, and not deleted since,
  carries already.\<close>

fun ids_fresh :: "RuleOp list \<Rightarrow> Clock \<Rightarrow> Rule list \<Rightarrow> bool" where
  "ids_fresh [] c acc = True"
| "ids_fresh (OpAddRule rule # ops) c acc =
     (case stamp rule c of (rule', c') \<Rightarrow>
        Rule.ID rule' \<notin> set (map Rule.ID acc) \<and> ids_fresh ops c' (acc @ [rule']))"
| "ids_fresh (OpDeleteRule ruleID # ops) c acc =
     ids_fresh ops c (filter (\<lambda>r. Rule.ID r \<noteq> ruleID) acc)"

text \<open>The error that an operation of the sequence returns.\<close>

fun RuleOp_error :: "RuleOp \<Rightarrow> 'b Manager \<times> 'b World \<Rightarrow> error option" where
  "RuleOp_error (OpAddRule rule) mw =
     (case new_Rule rule (snd mw) of (p, w1) \<Rightarrow> fst (AddRule p (fst mw, w1)))"
| "RuleOp_error (OpDeleteRule ruleID) mw = fst (DeleteRule ruleID mw)"

text \<open>Every call that this run of the sequence makes to the backend succeeds: every
  \<^verbatim>\<open>AddRule\<close> returns \<^verbatim>\<open>nil\<close>, its only error being the backend's, and so does
  every \<^verbatim>\<open>DeleteRule\<close> of an ID that the store holds (for an ID that it does not hold,
  \<^verbatim>\<open>DeleteRule\<close> returns its error without a call to the backend).\<close>

fun backend_calls_succeed :: "RuleOp list \<Rightarrow> 'b Manager \<times> 'b World \<Rightarrow> bool" where
  "backend_calls_succeed [] mw = True"
| "backend_calls_succeed (OpAddRule rule # ops) mw =
     (RuleOp_error (OpAddRule rule) mw = None \<and>
      backend_calls_succeed ops (apply_RuleOp (OpAddRule rule) mw))"
| "backend_calls_succeed (OpDeleteRule ruleID # ops) mw =
     ((map_of (rules (fst mw)) ruleID = None \<or> RuleOp_error (OpDeleteRule ruleID) mw = None) \<and>
      backend_calls_succeed ops (apply_RuleOp (OpDeleteRule ruleID) mw))"

text \<open>A number of \<^verbatim>\<open>Select\<close> calls on one round-robin balancer with the same list.\<close>

fun RoundRobin_Selects :: "nat \<Rightarrow> Service list \<Rightarrow> 64 word \<Rightarrow> Service option list \<times> 64 word" where
  "RoundRobin_Selects 0 svcs counter = ([], counter)"
| "RoundRobin_Selects (Suc n) svcs counter =
     (case RoundRobin_Select svcs counter of
        ((selected, err), c) \<Rightarrow>
          (case RoundRobin_Selects n svcs c of (rest, c') \<Rightarrow> (selected # rest, c')))"

text \<open>A sequence of \<^verbatim>\<open>Select\<close> and \<^verbatim>\<open>ReleaseConnection\<close> calls on one
  least-connection balancer.\<close>

datatype ConnOp = OpSelect "Service list" | OpRelease string

fun apply_ConnOp :: "ConnOp \<Rightarrow> connections \<Rightarrow> connections" where
  "apply_ConnOp (OpSelect svcs) conns = snd (LeastConn_Select svcs conns)"
| "apply_ConnOp (OpRelease serviceID) conns = ReleaseConnection serviceID conns"

fun run_ConnOps :: "ConnOp list \<Rightarrow> connections \<Rightarrow> connections" where
  "run_ConnOps [] conns = conns"
| "run_ConnOps (operation # ops) conns = run_ConnOps ops (apply_ConnOp operation conns)"

text \<open>The calls an operation has added to those made before it.\<close>

definition new_calls :: "'b World \<Rightarrow> 'b World \<Rightarrow> BackendCall list" where
  "new_calls w w' = drop (length (calls w)) (calls w')"

section \<open>Predicates used in the proofs\<close>

text \<open>The rule store holds one entry per key, and under each key a pointer to a rule
  with that ID, at an address that has been handed out.\<close>

definition store_inv :: "'b Manager \<Rightarrow> 'b World \<Rightarrow> bool" where
  "store_inv m w \<longleftrightarrow>
     distinct (map fst (rules m)) \<and>
     (\<forall>(k, p) \<in> set (rules m). Rule.ID (rule_heap w p) = k \<and> p < next_rule w)"

text \<open>The loop of the least-connection \<^verbatim>\<open>Select\<close>, started with \<open>s\<close> and
  \<open>minConn\<close>, ends with \<open>sel\<close>, which splits the list into \<open>pre\<close> and \<open>post\<close>.\<close>

definition scan_result ::
  "connections \<Rightarrow> Service list \<Rightarrow> Service \<Rightarrow> 64 word \<Rightarrow>
   Service list \<Rightarrow> Service \<Rightarrow> Service list \<Rightarrow> bool" where
  "scan_result conns xs s minConn pre sel post \<longleftrightarrow>
     xs = pre @ sel # post \<and>
     leastConn_loop conns xs (Some s, minConn) = (Some sel, conn_of conns (Service.ID sel)) \<and>
     sint (conn_of conns (Service.ID sel)) < sint minConn \<and>
     (\<forall>y \<in> set pre. sint (conn_of conns (Service.ID sel)) < sint (conn_of conns (Service.ID y))) \<and>
     (\<forall>y \<in> set post. sint (conn_of conns (Service.ID sel)) \<le> sint (conn_of conns (Service.ID y)))"

text \<open>Every count lies between 0 and \<open>n\<close>.\<close>

definition counts_within :: "nat \<Rightarrow> connections \<Rightarrow> bool" where
  "counts_within n conns \<longleftrightarrow> (\<forall>k c. conns k = Some c \<longrightarrow> 0 \<le> sint c \<and> sint c \<le> int n)"

section \<open>Inputs of the examples\<close>

text \<open>A clock that advances by one nanosecond between two reads.\<close>

definition clock0 :: Clock where
  "clock0 = \<lparr>clock = (\<lambda>k. 1000 + int k), reads = 0\<rparr>"

text \<open>The zero values \<^verbatim>\<open>Rule{}\<close> and \<^verbatim>\<open>Service{}\<close>, and a world in which no rule
  has been allocated.\<close>

definition Rule_zero :: Rule where
  "Rule_zero = \<lparr>Rule.ID = [], Chain = [], Protocol = [], Source = [], Dest = [],
                SPort = [], DPort = [], Action = [], Comment = [], CreatedAt = 0\<rparr>"

definition Service_zero :: Service where
  "Service_zero =
     \<lparr>Service.ID = [], Name = [], Address = [], Port = 0, Tags = [], Meta = [],
      HealthCheck = None, Service.Status = [], RegisteredAt = 0, LastSeen = 0\<rparr>"

definition world0 :: "unit World" where
  "world0 = \<lparr>backend_state = (), calls = [], wclock = clock0,
             rule_heap = (\<lambda>p. Rule_zero), next_rule = 0\<rparr>"

definition config0 :: FirewallConfig where
  "config0 = \<lparr>Backend = ''nftables'', DefaultPolicy = ''deny'', EnableIPv6 = False,
              SyncInterval = 30000000000, Rules = []\<rparr>"

definition rule_ssh :: Rule where
  "rule_ssh = \<lparr>Rule.ID = ''r1'', Chain = ''INPUT'', Protocol = ''tcp'', Source = [], Dest = [],
               SPort = [], DPort = ''22'', Action = ''ACCEPT'', Comment = [], CreatedAt = 0\<rparr>"

text \<open>A second rule that a caller submits under the ID of the first.\<close>

definition rule_web :: Rule where
  "rule_web = \<lparr>Rule.ID = ''r1'', Chain = ''INPUT'', Protocol = ''tcp'', Source = [], Dest = [],
               SPort = [], DPort = ''80'', Action = ''ACCEPT'', Comment = [], CreatedAt = 0\<rparr>"

text \<open>A rule without an ID.\<close>

definition rule_dns :: Rule where
  "rule_dns = \<lparr>Rule.ID = [], Chain = ''OUTPUT'', Protocol = ''udp'', Source = [], Dest = [],
               SPort = [], DPort = ''53'', Action = ''ACCEPT'', Comment = [], CreatedAt = 0\<rparr>"

definition rule_ntp :: Rule where
  "rule_ntp = \<lparr>Rule.ID = ''r2'', Chain = ''OUTPUT'', Protocol = ''udp'', Source = [], Dest = [],
               SPort = [], DPort = ''123'', Action = ''ACCEPT'', Comment = [], CreatedAt = 7\<rparr>"

definition ops_same_id :: "RuleOp list" where
  "ops_same_id = [OpAddRule rule_ssh, OpAddRule rule_web]"

definition ops_fresh :: "RuleOp list" where
  "ops_fresh = [OpAddRule rule_ssh, OpAddRule rule_dns, OpDeleteRule ''r1'']"

text \<open>A backend whose calls are all refused, one that keeps the rules in a list, and one
  with room for a number of rules, which is its state: it refuses a rule when no room is
  left.\<close>

definition RefusingBackend :: "unit Backend" where
  "RefusingBackend =
     \<lparr>backend_AddRule = (\<lambda>rule s. (Some ''permission denied'', s)),
      backend_DeleteRule = (\<lambda>rule s. (Some ''permission denied'', s)),
      backend_ListRules = (\<lambda>s. (([], Some ''permission denied''), s)),
      backend_Flush = (\<lambda>s. (Some ''permission denied'', s)),
      backend_SetDefaultPolicy = (\<lambda>chain policy s. (Some ''permission denied'', s))\<rparr>"

definition MemoryBackend :: "Rule list Backend" where
  "MemoryBackend =
     \<lparr>backend_AddRule = (\<lambda>rule s. (None, s @ [rule])),
      backend_DeleteRule = (\<lambda>rule s. (None, filter (\<lambda>x. \<not> rulesEqual x rule) s)),
      backend_ListRules = (\<lambda>s. ((s, None), s)),
      backend_Flush = (\<lambda>s. (None, [])),
      backend_SetDefaultPolicy = (\<lambda>chain policy s. (None, s))\<rparr>"

definition QuotaBackend :: "nat Backend" where
  "QuotaBackend =
     \<lparr>backend_AddRule = (\<lambda>rule s. if s = 0 then (Some ''no space left'', s) else (None, s - 1)),
      backend_DeleteRule = (\<lambda>rule s. (None, Suc s)),
      backend_ListRules = (\<lambda>s. (([], None), s)),
      backend_Flush = (\<lambda>s. (None, s)),
      backend_SetDefaultPolicy = (\<lambda>chain policy s. (None, s))\<rparr>"

definition world_quota :: "nat \<Rightarrow> nat World" where
  "world_quota n = \<lparr>backend_state = n, calls = [], wclock = clock0,
                    rule_heap = (\<lambda>p. Rule_zero), next_rule = 0\<rparr>"

text \<open>A manager that holds two rules, at the addresses 0 and 1, and a kernel that holds
  the first of them under an ID of its own.\<close>

definition manager_two_rules :: "Rule list Manager" where
  "manager_two_rules =
     \<lparr>config = config0, backend = MemoryBackend,
      rules = [(''r1'', 0), (''r2'', Suc 0)],
      Manager.stopChan_closed = False, Manager.running = True\<rparr>"

definition world_one_rule :: "Rule list World" where
  "world_one_rule =
     \<lparr>backend_state = [rule_ssh\<lparr>Rule.ID := ''kernel-7'', CreatedAt := 3\<rparr>], calls = [],
      wclock = clock0,
      rule_heap = (\<lambda>p. Rule_zero)(0 := rule_ssh, Suc 0 := rule_ntp), next_rule = 2\<rparr>"

text \<open>The rule \<open>rule_ssh\<close> at the address 0, added to a new manager whose backend has
  room for one rule.\<close>

definition fw_quota_stored :: "nat Manager \<times> nat World" where
  "fw_quota_stored =
     snd (AddRule 0 (NewManager config0 QuotaBackend, snd (new_Rule rule_ssh (world_quota 1))))"

text \<open>The same, after a caller has made a second rule, which is at the address 1.\<close>

definition fw_quota_second :: "nat Manager \<times> nat World" where
  "fw_quota_second = (fst fw_quota_stored, snd (new_Rule rule_ntp (snd fw_quota_stored)))"

text \<open>Services: \<open>web_instance i st\<close> is an instance of the service \<open>web\<close> with the ID
  \<open>i\<close> and the status \<open>st\<close>, and without a health check.\<close>

definition web_instance :: "string \<Rightarrow> ServiceStatus \<Rightarrow> Service" where
  "web_instance i st =
     \<lparr>Service.ID = i, Name = ''web'', Address = ''10.0.0.1'', Port = 8080, Tags = [], Meta = [],
      HealthCheck = None, Service.Status = st, RegisteredAt = 0, LastSeen = 0\<rparr>"

text \<open>Memory in which a caller holds two services, at the addresses 0 and 1.\<close>

definition heap_web :: "addr \<Rightarrow> Service" where
  "heap_web = (\<lambda>p. Service_zero)
     (0 := web_instance ''a'' StatusHealthy, Suc 0 := web_instance ''b'' StatusHealthy)"

text \<open>A registry whose calls are all refused, and one with room for a number of
  services.\<close>

definition RefusingDiscovery :: "unit Discovery" where
  "RefusingDiscovery =
     \<lparr>discovery_Register = (\<lambda>service s. (Some ''registry unreachable'', s)),
      discovery_Deregister = (\<lambda>serviceID s. (Some ''registry unreachable'', s)),
      discovery_Discover = (\<lambda>serviceName s. (([], Some ''registry unreachable''), s))\<rparr>"

definition mesh_refusing :: "unit MeshManager" where
  "mesh_refusing = NewMeshManager RefusingDiscovery (RoundRobinLoadBalancer 0)"

definition mesh_world_refusing :: "unit MeshWorld" where
  "mesh_world_refusing = \<lparr>discovery_state = (), mclock = clock0, service_heap = heap_web\<rparr>"

definition QuotaDiscovery :: "nat Discovery" where
  "QuotaDiscovery =
     \<lparr>discovery_Register =
        (\<lambda>service s. if s = 0 then (Some ''registry full'', s) else (None, s - 1)),
      discovery_Deregister = (\<lambda>serviceID s. (None, Suc s)),
      discovery_Discover = (\<lambda>serviceName s. (([], None), s))\<rparr>"

text \<open>The service at the address 0, registered with a new manager whose registry has
  room for one service, and then reported healthy.\<close>

definition mesh_quota_stored :: "nat MeshManager \<times> nat MeshWorld" where
  "mesh_quota_stored =
     snd (UpdateServiceStatus ''a'' StatusHealthy
       (snd (RegisterService 0
          (NewMeshManager QuotaDiscovery (RoundRobinLoadBalancer 0),
           \<lparr>discovery_state = 1, mclock = clock0, service_heap = heap_web\<rparr>))))"

definition mesh_static :: "static_state MeshManager" where
  "mesh_static = NewMeshManager StaticDiscovery (RoundRobinLoadBalancer 0)"

text \<open>A registry without any service, and one with three instances of \<open>web\<close>.\<close>

definition mesh_world_empty :: "static_state MeshWorld" where
  "mesh_world_empty = \<lparr>discovery_state = [], mclock = clock0, service_heap = heap_web\<rparr>"

definition mesh_world_mixed :: "static_state MeshWorld" where
  "mesh_world_mixed =
     \<lparr>discovery_state =
        [(''web'', [web_instance ''a'' StatusUnhealthy, web_instance ''b'' StatusHealthy,
                    web_instance ''c'' StatusUnknown])],
      mclock = clock0, service_heap = heap_web\<rparr>"

definition mesh_world_unknown :: "static_state MeshWorld" where
  "mesh_world_unknown =
     \<lparr>discovery_state = [(''web'', [web_instance ''c'' StatusUnknown])], mclock = clock0,
      service_heap = heap_web\<rparr>"

text \<open>A check whose counter of failures is 2 when it is handed to \<^verbatim>\<open>AddCheck\<close>, and
  a network that answers the probe with status 500.\<close>

definition check_web :: Check where
  "check_web =
     \<lparr>Check.ID = ''web-check'', Check.Type = ''http'', Target = ''http://10.0.0.1:8080/health'',
      Check.Interval = 0, Check.Timeout = 0, Check.Status = StatusCritical, LastCheck = 0,
      Failures = 2, callback = False\<rparr>"

definition checker_world0 :: CheckerWorld where
  "checker_world0 = \<lparr>cclock = clock0, loops = [], callbacks = []\<rparr>"

definition net_500 :: Network where
  "net_500 = \<lparr>http_Get = Response 500, tcp_Dial = None\<rparr>"

text \<open>Managers that are running, and their worlds.\<close>

definition fw_running :: "unit Manager" where
  "fw_running = (NewManager config0 NFTablesBackend)\<lparr>Manager.running := True\<rparr>"

definition mesh_running :: "static_state MeshManager" where
  "mesh_running = mesh_static\<lparr>MeshManager.running := True\<rparr>"

definition checker_running :: Checker where
  "checker_running = NewChecker\<lparr>Checker.running := True\<rparr>"

text \<open>Calls on a least-connection balancer: two selections among two instances, and
  three releases, two of which find nothing to release.\<close>

definition ops_conn :: "ConnOp list" where
  "ops_conn =
     [OpSelect [web_instance ''a'' StatusHealthy, web_instance ''b'' StatusHealthy],
      OpSelect [web_instance ''a'' StatusHealthy, web_instance ''b'' StatusHealthy],
      OpRelease ''a'', OpRelease ''a'', OpRelease ''z'']"

section \<open>Rule reconciler: the store\<close>

lemma mem_update:
  "distinct (map fst al) \<Longrightarrow>
   (k', r) \<in> set (AList.update k v al) \<longleftrightarrow> (if k' = k then r = v else (k', r) \<in> set al)"
proof -
  assume d: "distinct (map fst al)"
  then have d': "distinct (map fst (AList.update k v al))" by (rule distinct_update)
  have "(k', r) \<in> set (AList.update k v al) \<longleftrightarrow> map_of (AList.update k v al) k' = Some r"
    using d' by simp
  also have "\<dots> \<longleftrightarrow> (if k' = k then r = v else map_of al k' = Some r)"
    by (auto simp: update_conv')
  also have "\<dots> \<longleftrightarrow> (if k' = k then r = v else (k', r) \<in> set al)"
    using d by simp
  finally show ?thesis .
qed

lemma mem_delete: "(k', r) \<in> set (AList.delete k al) \<longleftrightarrow> k' \<noteq> k \<and> (k', r) \<in> set al"
  by (auto simp: AList.delete_eq)

lemma delete_absent: "map_of al k = None \<Longrightarrow> AList.delete k al = al"
  by (induction al) (auto split: if_splits)

text \<open>What an operation of a sequence does to the store, to the memory and to the
  clock.\<close>

lemma apply_OpAddRule:
  assumes "stamp rule (wclock w) = (r', c')"
  shows "\<exists>w'. apply_RuleOp (OpAddRule rule) (m, w) =
            (m\<lparr>rules := (if RuleOp_error (OpAddRule rule) (m, w) = None
                          then AList.update (Rule.ID r') (next_rule w) (rules m)
                          else rules m)\<rparr>, w') \<and>
          rule_heap w' = (rule_heap w)(next_rule w := r') \<and>
          next_rule w' = Suc (next_rule w) \<and> wclock w' = c'"
  using assms
  by (simp add: AddRule_def new_Rule_def call_AddRule_def split: prod.splits option.splits)

lemma apply_OpDeleteRule:
  "\<exists>w'. apply_RuleOp (OpDeleteRule ruleID) (m, w) =
      (m\<lparr>rules := (if map_of (rules m) ruleID = None \<or>
                       RuleOp_error (OpDeleteRule ruleID) (m, w) = None
                    then AList.delete ruleID (rules m)
                    else rules m)\<rparr>, w') \<and>
    rule_heap w' = rule_heap w \<and> next_rule w' = next_rule w \<and> wclock w' = wclock w"
  by (simp add: DeleteRule_def call_DeleteRule_def delete_absent
      split: prod.splits option.splits)

lemma store_inv_update:
  assumes "store_inv m w"
    and "rule_heap w' = (rule_heap w)(next_rule w := r')" and "next_rule w' = Suc (next_rule w)"
  shows "store_inv (m\<lparr>rules := AList.update (Rule.ID r') (next_rule w) (rules m)\<rparr>) w'"
    and "store_inv m w'"
proof -
  have d: "distinct (map fst (rules m))" using assms(1) by (simp add: store_inv_def)
  have old: "Rule.ID (rule_heap w p) = k \<and> p < next_rule w" if "(k, p) \<in> set (rules m)" for k p
    using assms(1) that by (auto simp: store_inv_def)
  have new: "Rule.ID (rule_heap w' p) = k \<and> p < next_rule w'" if "(k, p) \<in> set (rules m)" for k p
    using old [OF that] by (simp add: assms(2,3))
  show "store_inv m w'" unfolding store_inv_def using d new by auto
  show "store_inv (m\<lparr>rules := AList.update (Rule.ID r') (next_rule w) (rules m)\<rparr>) w'"
  proof -
    have at_new: "Rule.ID (rule_heap w' (next_rule w)) = Rule.ID r' \<and> next_rule w < next_rule w'"
      by (simp add: assms(2,3))
    show ?thesis
      unfolding store_inv_def using d new at_new
      by (auto simp: distinct_update mem_update split: if_splits)
  qed
qed

lemma store_inv_delete:
  assumes "store_inv m w" and "rule_heap w' = rule_heap w" and "next_rule w' = next_rule w"
  shows "store_inv (m\<lparr>rules := AList.delete x (rules m)\<rparr>) w'" and "store_inv m w'"
  using assms unfolding store_inv_def
  by (auto simp: distinct_delete mem_delete)

lemma store_inv_apply:
  assumes "store_inv (fst mw) (snd mw)"
  shows "store_inv (fst (apply_RuleOp operation mw)) (snd (apply_RuleOp operation mw))"
proof (cases mw)
  case (Pair m w)
  with assms have inv: "store_inv m w" by simp
  show ?thesis
  proof (cases operation)
    case (OpAddRule rule)
    obtain r' c' where st: "stamp rule (wclock w) = (r', c')" by (cases "stamp rule (wclock w)")
    from apply_OpAddRule [OF st, of m] obtain w' where
      a: "apply_RuleOp (OpAddRule rule) (m, w) =
            (m\<lparr>rules := (if RuleOp_error (OpAddRule rule) (m, w) = None
                          then AList.update (Rule.ID r') (next_rule w) (rules m)
                          else rules m)\<rparr>, w')"
      and h: "rule_heap w' = (rule_heap w)(next_rule w := r')"
      and n: "next_rule w' = Suc (next_rule w)"
      by blast
    show ?thesis
      unfolding Pair OpAddRule a using store_inv_update [OF inv h n] by simp
  next
    case (OpDeleteRule ruleID)
    from apply_OpDeleteRule [of ruleID m w] obtain w' where
      a: "apply_RuleOp (OpDeleteRule ruleID) (m, w) =
            (m\<lparr>rules := (if map_of (rules m) ruleID = None \<or>
                             RuleOp_error (OpDeleteRule ruleID) (m, w) = None
                          then AList.delete ruleID (rules m)
                          else rules m)\<rparr>, w')"
      and h: "rule_heap w' = rule_heap w" and n: "next_rule w' = next_rule w"
      by blast
    show ?thesis
      unfolding Pair OpDeleteRule a
      using store_inv_delete(1) [OF inv h n, where x = ruleID] store_inv_delete(2) [OF inv h n]
      by simp
  qed
qed

lemma store_inv_run:
  "store_inv (fst mw) (snd mw) \<Longrightarrow>
   store_inv (fst (run_RuleOps ops mw)) (snd (run_RuleOps ops mw))"
  by (induction ops arbitrary: mw) (simp_all add: store_inv_apply)

lemma store_inv_distinct_IDs: "store_inv m w \<Longrightarrow> distinct (map Rule.ID (listed_rules m w))"
proof -
  assume s: "store_inv m w"
  then have e: "map (Rule.ID \<circ> (rule_heap w \<circ> snd)) (rules m) = map fst (rules m)"
    by (intro map_cong) (auto simp: store_inv_def)
  from s have "distinct (map fst (rules m))" by (simp add: store_inv_def)
  then show ?thesis unfolding listed_rules_def ListRules_def map_map e .
qed

lemma set_listed_rules: "set (listed_rules m w) = rule_heap w ` snd ` set (rules m)"
  by (simp add: listed_rules_def ListRules_def image_image)

lemma store_keys: "store_inv m w \<Longrightarrow> fst ` set (rules m) = Rule.ID ` set (listed_rules m w)"
  unfolding set_listed_rules store_inv_def by (force simp: image_iff)

lemma values_update_fresh:
  assumes "distinct (map fst al)" "k \<notin> fst ` set al"
  shows "snd ` set (AList.update k v al) = insert v (snd ` set al)"
  using assms by (induction al) (auto split: if_splits)

lemma listed_after_add:
  assumes inv: "store_inv m w"
    and nk: "Rule.ID r' \<notin> Rule.ID ` set (listed_rules m w)"
    and h: "rule_heap w' = (rule_heap w)(next_rule w := r')"
  shows "set (listed_rules (m\<lparr>rules := AList.update (Rule.ID r') (next_rule w) (rules m)\<rparr>) w') =
         insert r' (set (listed_rules m w))"
proof -
  have d: "distinct (map fst (rules m))" using inv by (simp add: store_inv_def)
  have k: "Rule.ID r' \<notin> fst ` set (rules m)" using nk store_keys [OF inv] by simp
  have old: "\<forall>q \<in> snd ` set (rules m). q \<noteq> next_rule w"
    using inv by (force simp: store_inv_def)
  then have same: "rule_heap w' ` snd ` set (rules m) = rule_heap w ` snd ` set (rules m)"
    unfolding h by (intro image_cong) auto
  have "set (listed_rules (m\<lparr>rules := AList.update (Rule.ID r') (next_rule w) (rules m)\<rparr>) w') =
      rule_heap w' ` insert (next_rule w) (snd ` set (rules m))"
    using values_update_fresh [OF d k, of "next_rule w"] by (simp add: set_listed_rules)
  also have "\<dots> = insert (rule_heap w' (next_rule w)) (rule_heap w' ` snd ` set (rules m))"
    by (rule image_insert)
  also have "\<dots> = insert r' (rule_heap w ` snd ` set (rules m))"
    unfolding same by (simp add: h)
  finally show ?thesis unfolding set_listed_rules .
qed

lemma listed_after_delete:
  assumes inv: "store_inv m w" and h: "rule_heap w' = rule_heap w"
  shows "set (listed_rules (m\<lparr>rules := AList.delete x (rules m)\<rparr>) w') =
         {r \<in> set (listed_rules m w). Rule.ID r \<noteq> x}"
  unfolding set_listed_rules h using inv unfolding store_inv_def
  by (force simp: mem_delete image_iff)

lemma run_matches:
  fixes m :: "'b Manager"
  assumes "store_inv m w" and "set (listed_rules m w) = set acc"
    and "backend_calls_succeed ops (m, w)" and "ids_fresh ops (wclock w) acc"
  shows "set (listed_rules (fst (run_RuleOps ops (m, w))) (snd (run_RuleOps ops (m, w)))) =
         set (added_not_deleted ops (wclock w) acc)"
  using assms
proof (induction ops arbitrary: m w acc)
  case Nil
  then show ?case by simp
next
  case (Cons operation ops)
  show ?case
  proof (cases operation)
    case (OpAddRule rule)
    obtain r' c' where st: "stamp rule (wclock w) = (r', c')" by (cases "stamp rule (wclock w)")
    from Cons.prems(4) OpAddRule st
    have fresh: "Rule.ID r' \<notin> set (map Rule.ID acc)" and rest: "ids_fresh ops c' (acc @ [r'])"
      by simp_all
    from Cons.prems(3) OpAddRule
    have ok: "RuleOp_error (OpAddRule rule) (m, w) = None"
      and oks: "backend_calls_succeed ops (apply_RuleOp (OpAddRule rule) (m, w))"
      by simp_all
    let ?m' = "m\<lparr>rules := AList.update (Rule.ID r') (next_rule w) (rules m)\<rparr>"
    from apply_OpAddRule [OF st, of m] ok obtain w' where
      a: "apply_RuleOp (OpAddRule rule) (m, w) = (?m', w')"
      and h: "rule_heap w' = (rule_heap w)(next_rule w := r')"
      and n: "next_rule w' = Suc (next_rule w)" and cw: "wclock w' = c'"
      by auto
    have inv': "store_inv ?m' w'" using store_inv_update(1) [OF Cons.prems(1) h n] .
    have nk: "Rule.ID r' \<notin> Rule.ID ` set (listed_rules m w)"
      using fresh Cons.prems(2) by simp
    have vals: "set (listed_rules ?m' w') = set (acc @ [r'])"
      using listed_after_add [OF Cons.prems(1) nk h] Cons.prems(2) by simp
    have "set (listed_rules (fst (run_RuleOps ops (?m', w'))) (snd (run_RuleOps ops (?m', w')))) =
        set (added_not_deleted ops (wclock w') (acc @ [r']))"
      using Cons.IH [OF inv' vals] oks rest a cw by simp
    then show ?thesis using OpAddRule a st cw by simp
  next
    case (OpDeleteRule ruleID)
    from Cons.prems(3) OpDeleteRule
    have ok: "map_of (rules m) ruleID = None \<or> RuleOp_error (OpDeleteRule ruleID) (m, w) = None"
      and oks: "backend_calls_succeed ops (apply_RuleOp (OpDeleteRule ruleID) (m, w))"
      by simp_all
    let ?m' = "m\<lparr>rules := AList.delete ruleID (rules m)\<rparr>"
    from apply_OpDeleteRule [of ruleID m w] ok obtain w' where
      d: "apply_RuleOp (OpDeleteRule ruleID) (m, w) = (?m', w')"
      and h: "rule_heap w' = rule_heap w" and n: "next_rule w' = next_rule w"
      and cw: "wclock w' = wclock w"
      by auto
    have inv': "store_inv ?m' w'" using store_inv_delete(1) [OF Cons.prems(1) h n, where x = ruleID] .
    have vals: "set (listed_rules ?m' w') = set (filter (\<lambda>r. Rule.ID r \<noteq> ruleID) acc)"
      using listed_after_delete [OF Cons.prems(1) h, where x = ruleID] Cons.prems(2) by simp
    have rest: "ids_fresh ops (wclock w') (filter (\<lambda>r. Rule.ID r \<noteq> ruleID) acc)"
      using Cons.prems(4) OpDeleteRule cw by simp
    have "set (listed_rules (fst (run_RuleOps ops (?m', w'))) (snd (run_RuleOps ops (?m', w')))) =
        set (added_not_deleted ops (wclock w') (filter (\<lambda>r. Rule.ID r \<noteq> ruleID) acc))"
      using Cons.IH [OF inv' vals] oks rest d by simp
    then show ?thesis using OpDeleteRule d cw by simp
  qed
qed

text \<open>
  C1, as amended. For every sequence of \<^verbatim>\<open>AddRule\<close> and \<^verbatim>\<open>DeleteRule\<close> calls on a
  new manager, each \<^verbatim>\<open>AddRule\<close> with a rule of its own: if every backend call that the
  sequence makes succeeds and no rule is added under an ID that a rule added before it,
  and not deleted since, carries already, then the rules that \<^verbatim>\<open>ListRules()\<close> returns
  are exactly the rules that were added and not deleted afterwards. After every
  sequence, whatever the backend answers, the rules listed have IDs that differ from one
  another.
\<close>

theorem ListRules_added_minus_deleted:
  fixes be :: "'b Backend"
  shows
  "(backend_calls_succeed ops (NewManager cfg be, w) \<and> ids_fresh ops (wclock w) [] \<longrightarrow>
      set (listed_rules (fst (run_RuleOps ops (NewManager cfg be, w)))
                        (snd (run_RuleOps ops (NewManager cfg be, w)))) =
        set (added_not_deleted ops (wclock w) []))
 \<and> distinct (map Rule.ID
      (listed_rules (fst (run_RuleOps ops (NewManager cfg be, w)))
                    (snd (run_RuleOps ops (NewManager cfg be, w)))))"
proof (intro conjI impI)
  have inv0: "store_inv (NewManager cfg be) w" by (simp add: store_inv_def NewManager_def)
  show "distinct (map Rule.ID
      (listed_rules (fst (run_RuleOps ops (NewManager cfg be, w)))
                    (snd (run_RuleOps ops (NewManager cfg be, w)))))"
    using store_inv_run [of "(NewManager cfg be, w)" ops] inv0
    by (simp add: store_inv_distinct_IDs)
  assume a: "backend_calls_succeed ops (NewManager cfg be, w) \<and> ids_fresh ops (wclock w) []"
  have l0: "set (listed_rules (NewManager cfg be) w) = set []"
    by (simp add: listed_rules_def ListRules_def NewManager_def)
  show "set (listed_rules (fst (run_RuleOps ops (NewManager cfg be, w)))
                          (snd (run_RuleOps ops (NewManager cfg be, w)))) =
        set (added_not_deleted ops (wclock w) [])"
    using run_matches [OF inv0 l0] a by simp
qed

text \<open>The sequence \<open>ops_fresh\<close> adds a rule with an ID and one without, and deletes the
  first: the rule left is the second, under the ID made from the clock. The backend has
  room for two rules, so every call of this run succeeds; it would refuse a third
  rule.\<close>

theorem ListRules_added_minus_deleted_witness:
  "backend_calls_succeed ops_fresh (NewManager config0 QuotaBackend, world_quota 2)
 \<and> ids_fresh ops_fresh clock0 []
 \<and> set (listed_rules (fst (run_RuleOps ops_fresh (NewManager config0 QuotaBackend, world_quota 2)))
                      (snd (run_RuleOps ops_fresh (NewManager config0 QuotaBackend, world_quota 2)))) =
     set (added_not_deleted ops_fresh clock0 [])
 \<and> added_not_deleted ops_fresh clock0 [] = [rule_dns\<lparr>Rule.ID := ''rule-1001'', CreatedAt := 1002\<rparr>]
 \<and> distinct (map Rule.ID
      (listed_rules (fst (run_RuleOps ops_fresh (NewManager config0 QuotaBackend, world_quota 2)))
                    (snd (run_RuleOps ops_fresh (NewManager config0 QuotaBackend, world_quota 2)))))
 \<and> fst (backend_AddRule QuotaBackend rule_ssh 0) = Some ''no space left''"
proof -
  have s1: "stamp rule_ssh clock0 = (rule_ssh\<lparr>CreatedAt := 1000\<rparr>, clock0\<lparr>reads := Suc 0\<rparr>)"
    by (simp add: stamp_def time_Now_def clock0_def rule_ssh_def)
  have s2: "stamp rule_dns (clock0\<lparr>reads := Suc 0\<rparr>) =
      (rule_dns\<lparr>Rule.ID := ''rule-1001'', CreatedAt := 1002\<rparr>, clock0\<lparr>reads := Suc (Suc (Suc 0))\<rparr>)"
    by (simp add: stamp_def generateRuleID_def time_Now_def clock0_def rule_dns_def
        Sprintf_d_def string_of_nat.simps)
  have f: "ids_fresh ops_fresh clock0 []"
    by (simp add: ops_fresh_def s1 s2) (simp add: rule_ssh_def)
  have l: "added_not_deleted ops_fresh clock0 [] =
      [rule_dns\<lparr>Rule.ID := ''rule-1001'', CreatedAt := 1002\<rparr>]"
    by (simp add: ops_fresh_def s1 s2) (simp add: rule_ssh_def)
  have i: "Rule.ID (rule_ssh\<lparr>CreatedAt := 1000\<rparr>) = ''r1''" by (simp add: rule_ssh_def)
  have b: "backend_calls_succeed ops_fresh (NewManager config0 QuotaBackend, world_quota 2)"
    by (simp add: ops_fresh_def AddRule_def DeleteRule_def new_Rule_def call_AddRule_def
        call_DeleteRule_def QuotaBackend_def NewManager_def world_quota_def s1 s2 i)
  have q: "fst (backend_AddRule QuotaBackend rule_ssh 0) = Some ''no space left''"
    by (simp add: QuotaBackend_def)
  show ?thesis
    using ListRules_added_minus_deleted [of ops_fresh config0 QuotaBackend "world_quota 2"] f l b q
    by (simp add: world_quota_def)
qed

text \<open>
  The claim as it is written fails when a rule is added under an ID that the store
  holds already: \<^verbatim>\<open>m.rules[rule.ID] = rule\<close> replaces the pointer that was there. Both
  calls of \<open>ops_same_id\<close> succeed, nothing is deleted, and \<^verbatim>\<open>ListRules\<close> holds one rule
  of the two.
\<close>

theorem ListRules_same_id_counterexample:
  "RuleOp_error (OpAddRule rule_ssh) (NewManager config0 NFTablesBackend, world0) = None
 \<and> RuleOp_error (OpAddRule rule_web)
      (apply_RuleOp (OpAddRule rule_ssh) (NewManager config0 NFTablesBackend, world0)) = None
 \<and> backend_calls_succeed ops_same_id (NewManager config0 NFTablesBackend, world0)
 \<and> added_not_deleted ops_same_id clock0 [] =
     [rule_ssh\<lparr>CreatedAt := 1000\<rparr>, rule_web\<lparr>CreatedAt := 1001\<rparr>]
 \<and> listed_rules (fst (run_RuleOps ops_same_id (NewManager config0 NFTablesBackend, world0)))
                 (snd (run_RuleOps ops_same_id (NewManager config0 NFTablesBackend, world0))) =
     [rule_web\<lparr>CreatedAt := 1001\<rparr>]
 \<and> set (listed_rules (fst (run_RuleOps ops_same_id (NewManager config0 NFTablesBackend, world0)))
                      (snd (run_RuleOps ops_same_id (NewManager config0 NFTablesBackend, world0)))) \<noteq>
     set (added_not_deleted ops_same_id clock0 [])"
proof -
  have s1: "stamp rule_ssh clock0 = (rule_ssh\<lparr>CreatedAt := 1000\<rparr>, clock0\<lparr>reads := Suc 0\<rparr>)"
    by (simp add: stamp_def time_Now_def clock0_def rule_ssh_def)
  have s2: "stamp rule_web (clock0\<lparr>reads := Suc 0\<rparr>) =
      (rule_web\<lparr>CreatedAt := 1001\<rparr>, clock0\<lparr>reads := Suc (Suc 0)\<rparr>)"
    by (simp add: stamp_def time_Now_def clock0_def rule_web_def)
  have i: "Rule.ID (rule_ssh\<lparr>CreatedAt := 1000\<rparr>) = ''r1''"
    "Rule.ID (rule_web\<lparr>CreatedAt := 1001\<rparr>) = ''r1''"
    by (simp_all add: rule_ssh_def rule_web_def)
  have e1: "RuleOp_error (OpAddRule rule_ssh) (NewManager config0 NFTablesBackend, world0) = None"
    by (simp add: AddRule_def new_Rule_def call_AddRule_def NFTablesBackend_def NewManager_def
        world0_def s1)
  have e2: "RuleOp_error (OpAddRule rule_web)
      (apply_RuleOp (OpAddRule rule_ssh) (NewManager config0 NFTablesBackend, world0)) = None"
    by (simp add: AddRule_def new_Rule_def call_AddRule_def NFTablesBackend_def NewManager_def
        world0_def s1 s2)
  have b: "backend_calls_succeed ops_same_id (NewManager config0 NFTablesBackend, world0)"
    using e1 e2 by (simp add: ops_same_id_def)
  have l: "added_not_deleted ops_same_id clock0 [] =
      [rule_ssh\<lparr>CreatedAt := 1000\<rparr>, rule_web\<lparr>CreatedAt := 1001\<rparr>]"
    by (simp add: ops_same_id_def s1 s2)
  have r: "listed_rules (fst (run_RuleOps ops_same_id (NewManager config0 NFTablesBackend, world0)))
                 (snd (run_RuleOps ops_same_id (NewManager config0 NFTablesBackend, world0))) =
      [rule_web\<lparr>CreatedAt := 1001\<rparr>]"
    by (simp add: ops_same_id_def AddRule_def new_Rule_def call_AddRule_def NFTablesBackend_def
        NewManager_def world0_def s1 s2 i listed_rules_def ListRules_def)
  have d: "rule_ssh\<lparr>CreatedAt := 1000\<rparr> \<noteq> rule_web\<lparr>CreatedAt := 1001\<rparr>"
    by (simp add: rule_ssh_def rule_web_def)
  show ?thesis unfolding l r using d e1 e2 b by simp
qed
section \<open>A failed add or registration\<close>

text \<open>The examples: a rule and a service that are stored, with a backend and a registry
  that have no room left.\<close>

lemma fw_quota_stored_eq:
  "fw_quota_stored =
     ((NewManager config0 QuotaBackend)\<lparr>rules := [(''r1'', 0)]\<rparr>,
      \<lparr>backend_state = 0, calls = [CallAddRule (rule_ssh\<lparr>CreatedAt := 1000\<rparr>)],
       wclock = clock0\<lparr>reads := Suc 0\<rparr>,
       rule_heap = (\<lambda>p. Rule_zero)(0 := rule_ssh\<lparr>CreatedAt := 1000\<rparr>), next_rule = Suc 0\<rparr>)"
proof -
  have s1: "stamp rule_ssh clock0 = (rule_ssh\<lparr>CreatedAt := 1000\<rparr>, clock0\<lparr>reads := Suc 0\<rparr>)"
    by (simp add: stamp_def time_Now_def clock0_def rule_ssh_def)
  have i: "Rule.ID (rule_ssh\<lparr>CreatedAt := 1000\<rparr>) = ''r1''" by (simp add: rule_ssh_def)
  show ?thesis
    by (simp add: fw_quota_stored_def AddRule_def new_Rule_def call_AddRule_def QuotaBackend_def
        NewManager_def world_quota_def s1 i)
qed

lemma mesh_quota_stored_eq:
  "mesh_quota_stored =
     ((NewMeshManager QuotaDiscovery (RoundRobinLoadBalancer 0))\<lparr>services := [(''a'', 0)]\<rparr>,
      \<lparr>discovery_state = 0, mclock = clock0\<lparr>reads := Suc (Suc (Suc 0))\<rparr>,
       service_heap = heap_web
         (0 := (web_instance ''a'' StatusHealthy)\<lparr>RegisteredAt := 1000, LastSeen := 1002\<rparr>)\<rparr>)"
proof -
  have s1: "stamp_service (web_instance ''a'' StatusHealthy) clock0 =
      ((web_instance ''a'' StatusUnknown)\<lparr>RegisteredAt := 1000, LastSeen := 1001\<rparr>,
       clock0\<lparr>reads := Suc (Suc 0)\<rparr>)"
    by (simp add: stamp_service_def time_Now_def clock0_def web_instance_def)
  have i: "Service.ID ((web_instance ''a'' StatusUnknown)\<lparr>RegisteredAt := 1000, LastSeen := 1001\<rparr>) = ''a''"
    by (simp add: web_instance_def)
  have h: "heap_web 0 = web_instance ''a'' StatusHealthy" by (simp add: heap_web_def)
  have t: "time_Now (clock0\<lparr>reads := Suc (Suc 0)\<rparr>) = (1002, clock0\<lparr>reads := Suc (Suc (Suc 0))\<rparr>)"
    by (simp add: time_Now_def clock0_def)
  have u: "(web_instance ''a'' StatusUnknown)
             \<lparr>RegisteredAt := 1000, Service.Status := StatusHealthy, LastSeen := 1002\<rparr> =
           (web_instance ''a'' StatusHealthy)\<lparr>RegisteredAt := 1000, LastSeen := 1002\<rparr>"
    by (simp add: web_instance_def)
  show ?thesis
    by (simp add: mesh_quota_stored_def RegisterService_def UpdateServiceStatus_def
        call_Register_def QuotaDiscovery_def NewMeshManager_def s1 i h t u)
qed

lemma map_heap_upd: "p \<notin> set ps \<Longrightarrow> map (h(p := v)) ps = map h ps"
  by (induction ps) auto

text \<open>
  C2, as amended. If the backend call made by \<^verbatim>\<open>AddRule\<close> (rule reconciler) or by
  \<^verbatim>\<open>RegisterService\<close> (service registry manager) fails, the operation returns an
  error, which wraps the backend's, and nothing is inserted: the manager is the one it
  was, its store holding the same pointers under the same IDs. The record that the
  caller has passed has been written to before the call (the ID when it was empty and
  the time of creation of a rule; the ID when it was empty, the two times and the status
  Unknown of a service), and it keeps what was written; every other record in memory is
  as it was. So the rules or services that the manager lists are unchanged when the
  record passed is not one that the store holds already.
\<close>

theorem failed_add_inserts_nothing:
  fixes m :: "'b Manager" and sm :: "'d MeshManager"
  shows
  "(fst (backend_AddRule (backend m) (fst (stamp (rule_heap w p) (wclock w))) (backend_state w)) =
      Some e \<longrightarrow>
      fst (AddRule p (m, w)) = Some (''failed to add rule: '' @ e) \<and>
      fst (snd (AddRule p (m, w))) = m \<and>
      ListRules (fst (snd (AddRule p (m, w)))) = ListRules m \<and>
      rule_heap (snd (snd (AddRule p (m, w)))) =
        (rule_heap w)(p := fst (stamp (rule_heap w p) (wclock w))) \<and>
      (p \<notin> set (ListRules m) \<longrightarrow>
         listed_rules (fst (snd (AddRule p (m, w)))) (snd (snd (AddRule p (m, w)))) =
           listed_rules m w))
 \<and> (fst (discovery_Register (discovery sm) (fst (stamp_service (service_heap sw q) (mclock sw)))
           (discovery_state sw)) = Some e' \<longrightarrow>
      fst (RegisterService q (sm, sw)) = Some (''failed to register service: '' @ e') \<and>
      fst (snd (RegisterService q (sm, sw))) = sm \<and>
      ListServices (fst (snd (RegisterService q (sm, sw)))) = ListServices sm \<and>
      service_heap (snd (snd (RegisterService q (sm, sw)))) =
        (service_heap sw)(q := fst (stamp_service (service_heap sw q) (mclock sw))) \<and>
      (q \<notin> set (ListServices sm) \<longrightarrow>
         listed_services (fst (snd (RegisterService q (sm, sw))))
                         (snd (snd (RegisterService q (sm, sw)))) =
           listed_services sm sw))"
proof (intro conjI impI)
  assume a: "fst (backend_AddRule (backend m) (fst (stamp (rule_heap w p) (wclock w)))
      (backend_state w)) = Some e"
  obtain r' c where st: "stamp (rule_heap w p) (wclock w) = (r', c)"
    by (cases "stamp (rule_heap w p) (wclock w)")
  obtain b where "backend_AddRule (backend m) r' (backend_state w) = (Some e, b)"
    using a st by (cases "backend_AddRule (backend m) r' (backend_state w)") simp
  then have r: "AddRule p (m, w) =
      (Some (''failed to add rule: '' @ e), m,
       w\<lparr>wclock := c, rule_heap := (rule_heap w)(p := r'), backend_state := b,
         calls := calls w @ [CallAddRule r']\<rparr>)"
    using st by (simp add: AddRule_def call_AddRule_def)
  show "fst (AddRule p (m, w)) = Some (''failed to add rule: '' @ e)"
    and "fst (snd (AddRule p (m, w))) = m"
    and "ListRules (fst (snd (AddRule p (m, w)))) = ListRules m"
    and "rule_heap (snd (snd (AddRule p (m, w)))) =
        (rule_heap w)(p := fst (stamp (rule_heap w p) (wclock w)))"
    by (simp_all add: r st)
  assume "p \<notin> set (ListRules m)"
  then show "listed_rules (fst (snd (AddRule p (m, w)))) (snd (snd (AddRule p (m, w)))) =
      listed_rules m w"
    by (simp add: r listed_rules_def map_heap_upd)
next
  assume a: "fst (discovery_Register (discovery sm)
      (fst (stamp_service (service_heap sw q) (mclock sw))) (discovery_state sw)) = Some e'"
  obtain s' c where st: "stamp_service (service_heap sw q) (mclock sw) = (s', c)"
    by (cases "stamp_service (service_heap sw q) (mclock sw)")
  obtain d where "discovery_Register (discovery sm) s' (discovery_state sw) = (Some e', d)"
    using a st by (cases "discovery_Register (discovery sm) s' (discovery_state sw)") simp
  then have r: "RegisterService q (sm, sw) =
      (Some (''failed to register service: '' @ e'), sm,
       sw\<lparr>mclock := c, service_heap := (service_heap sw)(q := s'), discovery_state := d\<rparr>)"
    using st by (simp add: RegisterService_def call_Register_def)
  show "fst (RegisterService q (sm, sw)) = Some (''failed to register service: '' @ e')"
    and "fst (snd (RegisterService q (sm, sw))) = sm"
    and "ListServices (fst (snd (RegisterService q (sm, sw)))) = ListServices sm"
    and "service_heap (snd (snd (RegisterService q (sm, sw)))) =
        (service_heap sw)(q := fst (stamp_service (service_heap sw q) (mclock sw)))"
    by (simp_all add: r st)
  assume "q \<notin> set (ListServices sm)"
  then show "listed_services (fst (snd (RegisterService q (sm, sw))))
      (snd (snd (RegisterService q (sm, sw)))) = listed_services sm sw"
    by (simp add: r listed_services_def map_heap_upd)
qed

text \<open>The backend and the registry have no room left and refuse a second rule and a
  second service: the first ones stay listed as they were, and the records that were
  passed carry the time of the failed call.\<close>

theorem failed_add_inserts_nothing_witness:
  "fst (backend_AddRule (backend (fst fw_quota_second))
          (fst (stamp (rule_heap (snd fw_quota_second) (Suc 0)) (wclock (snd fw_quota_second))))
          (backend_state (snd fw_quota_second))) = Some ''no space left''
 \<and> fst (AddRule (Suc 0) fw_quota_second) = Some ''failed to add rule: no space left''
 \<and> fst (snd (AddRule (Suc 0) fw_quota_second)) = fst fw_quota_second
 \<and> Suc 0 \<notin> set (ListRules (fst fw_quota_second))
 \<and> listed_rules (fst fw_quota_second) (snd fw_quota_second) = [rule_ssh\<lparr>CreatedAt := 1000\<rparr>]
 \<and> listed_rules (fst (snd (AddRule (Suc 0) fw_quota_second)))
                 (snd (snd (AddRule (Suc 0) fw_quota_second))) = [rule_ssh\<lparr>CreatedAt := 1000\<rparr>]
 \<and> rule_heap (snd (snd (AddRule (Suc 0) fw_quota_second))) (Suc 0) = rule_ntp\<lparr>CreatedAt := 1001\<rparr>
 \<and> fst (discovery_Register (discovery (fst mesh_quota_stored))
          (fst (stamp_service (service_heap (snd mesh_quota_stored) (Suc 0))
                  (mclock (snd mesh_quota_stored))))
          (discovery_state (snd mesh_quota_stored))) = Some ''registry full''
 \<and> fst (RegisterService (Suc 0) mesh_quota_stored) =
     Some ''failed to register service: registry full''
 \<and> fst (snd (RegisterService (Suc 0) mesh_quota_stored)) = fst mesh_quota_stored
 \<and> Suc 0 \<notin> set (ListServices (fst mesh_quota_stored))
 \<and> listed_services (fst mesh_quota_stored) (snd mesh_quota_stored) =
     [(web_instance ''a'' StatusHealthy)\<lparr>RegisteredAt := 1000, LastSeen := 1002\<rparr>]
 \<and> listed_services (fst (snd (RegisterService (Suc 0) mesh_quota_stored)))
                    (snd (snd (RegisterService (Suc 0) mesh_quota_stored))) =
     [(web_instance ''a'' StatusHealthy)\<lparr>RegisteredAt := 1000, LastSeen := 1002\<rparr>]
 \<and> service_heap (snd (snd (RegisterService (Suc 0) mesh_quota_stored))) (Suc 0) =
     (web_instance ''b'' StatusUnknown)\<lparr>RegisteredAt := 1003, LastSeen := 1004\<rparr>"
proof -
  have s2: "stamp rule_ntp (clock0\<lparr>reads := Suc 0\<rparr>) =
      (rule_ntp\<lparr>CreatedAt := 1001\<rparr>, clock0\<lparr>reads := Suc (Suc 0)\<rparr>)"
    by (simp add: stamp_def time_Now_def clock0_def rule_ntp_def)
  have fm: "backend (fst fw_quota_second) = QuotaBackend"
    "ListRules (fst fw_quota_second) = [0]"
    by (simp_all add: fw_quota_second_def fw_quota_stored_eq NewManager_def ListRules_def)
  have fw: "rule_heap (snd fw_quota_second) (Suc 0) = rule_ntp"
    "rule_heap (snd fw_quota_second) 0 = rule_ssh\<lparr>CreatedAt := 1000\<rparr>"
    "wclock (snd fw_quota_second) = clock0\<lparr>reads := Suc 0\<rparr>"
    "backend_state (snd fw_quota_second) = 0"
    by (simp_all add: fw_quota_second_def fw_quota_stored_eq new_Rule_def)
  have p1: "fst (backend_AddRule (backend (fst fw_quota_second))
          (fst (stamp (rule_heap (snd fw_quota_second) (Suc 0)) (wclock (snd fw_quota_second))))
          (backend_state (snd fw_quota_second))) = Some ''no space left''"
    by (simp add: fm fw QuotaBackend_def)
  have l1: "listed_rules (fst fw_quota_second) (snd fw_quota_second) = [rule_ssh\<lparr>CreatedAt := 1000\<rparr>]"
    by (simp add: listed_rules_def fm fw)
  have t2: "stamp_service (web_instance ''b'' StatusHealthy) (clock0\<lparr>reads := Suc (Suc (Suc 0))\<rparr>) =
      ((web_instance ''b'' StatusUnknown)\<lparr>RegisteredAt := 1003, LastSeen := 1004\<rparr>,
       clock0\<lparr>reads := Suc (Suc (Suc (Suc (Suc 0))))\<rparr>)"
    by (simp add: stamp_service_def time_Now_def clock0_def web_instance_def)
  have sm: "discovery (fst mesh_quota_stored) = QuotaDiscovery"
    "ListServices (fst mesh_quota_stored) = [0]"
    by (simp_all add: mesh_quota_stored_eq NewMeshManager_def ListServices_def)
  have sw: "service_heap (snd mesh_quota_stored) (Suc 0) = web_instance ''b'' StatusHealthy"
    "service_heap (snd mesh_quota_stored) 0 =
       (web_instance ''a'' StatusHealthy)\<lparr>RegisteredAt := 1000, LastSeen := 1002\<rparr>"
    "mclock (snd mesh_quota_stored) = clock0\<lparr>reads := Suc (Suc (Suc 0))\<rparr>"
    "discovery_state (snd mesh_quota_stored) = 0"
    by (simp_all add: mesh_quota_stored_eq heap_web_def)
  have p2: "fst (discovery_Register (discovery (fst mesh_quota_stored))
          (fst (stamp_service (service_heap (snd mesh_quota_stored) (Suc 0))
                  (mclock (snd mesh_quota_stored))))
          (discovery_state (snd mesh_quota_stored))) = Some ''registry full''"
    by (simp add: sm sw QuotaDiscovery_def)
  have l2: "listed_services (fst mesh_quota_stored) (snd mesh_quota_stored) =
     [(web_instance ''a'' StatusHealthy)\<lparr>RegisteredAt := 1000, LastSeen := 1002\<rparr>]"
    by (simp add: listed_services_def sm sw)
  have n: "Suc 0 \<notin> set (ListRules (fst fw_quota_second))"
    "Suc 0 \<notin> set (ListServices (fst mesh_quota_stored))"
    by (simp_all add: fm sm)
  note t = failed_add_inserts_nothing [where m = "fst fw_quota_second" and w = "snd fw_quota_second"
      and p = "Suc 0" and e = "''no space left''" and sm = "fst mesh_quota_stored"
      and sw = "snd mesh_quota_stored" and q = "Suc 0" and e' = "''registry full''",
      unfolded prod.collapse]
  from t p1 have a1: "fst (AddRule (Suc 0) fw_quota_second) = Some ''failed to add rule: no space left''"
    and a2: "fst (snd (AddRule (Suc 0) fw_quota_second)) = fst fw_quota_second"
    and a3: "rule_heap (snd (snd (AddRule (Suc 0) fw_quota_second))) =
        (rule_heap (snd fw_quota_second))
          (Suc 0 := fst (stamp (rule_heap (snd fw_quota_second) (Suc 0)) (wclock (snd fw_quota_second))))"
    by simp_all
  from t p1 n(1) have a4: "listed_rules (fst (snd (AddRule (Suc 0) fw_quota_second)))
      (snd (snd (AddRule (Suc 0) fw_quota_second))) = listed_rules (fst fw_quota_second) (snd fw_quota_second)"
    by blast
  from t p2 have b1: "fst (RegisterService (Suc 0) mesh_quota_stored) =
      Some ''failed to register service: registry full''"
    and b2: "fst (snd (RegisterService (Suc 0) mesh_quota_stored)) = fst mesh_quota_stored"
    and b3: "service_heap (snd (snd (RegisterService (Suc 0) mesh_quota_stored))) =
        (service_heap (snd mesh_quota_stored))
          (Suc 0 := fst (stamp_service (service_heap (snd mesh_quota_stored) (Suc 0))
                          (mclock (snd mesh_quota_stored))))"
    by simp_all
  from t p2 n(2) have b4: "listed_services (fst (snd (RegisterService (Suc 0) mesh_quota_stored)))
      (snd (snd (RegisterService (Suc 0) mesh_quota_stored))) =
      listed_services (fst mesh_quota_stored) (snd mesh_quota_stored)"
    by blast
  have a5: "rule_heap (snd (snd (AddRule (Suc 0) fw_quota_second))) (Suc 0) = rule_ntp\<lparr>CreatedAt := 1001\<rparr>"
    unfolding a3 by (simp add: fw s2)
  have b5: "service_heap (snd (snd (RegisterService (Suc 0) mesh_quota_stored))) (Suc 0) =
      (web_instance ''b'' StatusUnknown)\<lparr>RegisteredAt := 1003, LastSeen := 1004\<rparr>"
    unfolding b3 by (simp add: sw t2)
  show ?thesis
    unfolding a4 b4 l1 l2 using p1 p2 n a1 a2 a5 b1 b2 b5 by blast
qed

text \<open>
  The claim as it is written fails when the record that is passed is one that the store
  holds already, as when a caller submits a rule or a service a second time. The stored
  pointer is the caller's, so what \<^verbatim>\<open>AddRule\<close> and \<^verbatim>\<open>RegisterService\<close> write before
  the call of the backend is written to the stored record, and the error that follows
  takes nothing back: the stored rule has a new time of creation, and the stored
  service, which was healthy, is Unknown with new times.
\<close>

theorem failed_add_rewrites_stored_counterexample:
  "fst (AddRule 0 (NewManager config0 QuotaBackend, snd (new_Rule rule_ssh (world_quota 1)))) = None
 \<and> listed_rules (fst fw_quota_stored) (snd fw_quota_stored) = [rule_ssh\<lparr>CreatedAt := 1000\<rparr>]
 \<and> fst (AddRule 0 fw_quota_stored) = Some ''failed to add rule: no space left''
 \<and> listed_rules (fst (snd (AddRule 0 fw_quota_stored))) (snd (snd (AddRule 0 fw_quota_stored))) =
     [rule_ssh\<lparr>CreatedAt := 1001\<rparr>]
 \<and> listed_rules (fst (snd (AddRule 0 fw_quota_stored))) (snd (snd (AddRule 0 fw_quota_stored))) \<noteq>
     listed_rules (fst fw_quota_stored) (snd fw_quota_stored)
 \<and> listed_services (fst mesh_quota_stored) (snd mesh_quota_stored) =
     [(web_instance ''a'' StatusHealthy)\<lparr>RegisteredAt := 1000, LastSeen := 1002\<rparr>]
 \<and> fst (RegisterService 0 mesh_quota_stored) = Some ''failed to register service: registry full''
 \<and> listed_services (fst (snd (RegisterService 0 mesh_quota_stored)))
                    (snd (snd (RegisterService 0 mesh_quota_stored))) =
     [(web_instance ''a'' StatusUnknown)\<lparr>RegisteredAt := 1003, LastSeen := 1004\<rparr>]
 \<and> listed_services (fst (snd (RegisterService 0 mesh_quota_stored)))
                    (snd (snd (RegisterService 0 mesh_quota_stored))) \<noteq>
     listed_services (fst mesh_quota_stored) (snd mesh_quota_stored)"
proof -
  have s1: "stamp rule_ssh clock0 = (rule_ssh\<lparr>CreatedAt := 1000\<rparr>, clock0\<lparr>reads := Suc 0\<rparr>)"
    by (simp add: stamp_def time_Now_def clock0_def rule_ssh_def)
  have s2: "stamp (rule_ssh\<lparr>CreatedAt := 1000\<rparr>) (clock0\<lparr>reads := Suc 0\<rparr>) =
      (rule_ssh\<lparr>CreatedAt := 1001\<rparr>, clock0\<lparr>reads := Suc (Suc 0)\<rparr>)"
    by (simp add: stamp_def time_Now_def clock0_def rule_ssh_def)
  have a0: "fst (AddRule 0 (NewManager config0 QuotaBackend, snd (new_Rule rule_ssh (world_quota 1)))) =
      None"
    by (simp add: AddRule_def new_Rule_def call_AddRule_def QuotaBackend_def NewManager_def
        world_quota_def s1)
  have l1: "listed_rules (fst fw_quota_stored) (snd fw_quota_stored) = [rule_ssh\<lparr>CreatedAt := 1000\<rparr>]"
    by (simp add: fw_quota_stored_eq listed_rules_def ListRules_def)
  have a1: "AddRule 0 fw_quota_stored =
      (Some ''failed to add rule: no space left'', fst fw_quota_stored,
       (snd fw_quota_stored)
         \<lparr>wclock := clock0\<lparr>reads := Suc (Suc 0)\<rparr>,
          rule_heap := (\<lambda>p. Rule_zero)(0 := rule_ssh\<lparr>CreatedAt := 1001\<rparr>),
          calls := [CallAddRule (rule_ssh\<lparr>CreatedAt := 1000\<rparr>),
                    CallAddRule (rule_ssh\<lparr>CreatedAt := 1001\<rparr>)]\<rparr>)"
    by (simp add: fw_quota_stored_eq AddRule_def call_AddRule_def QuotaBackend_def NewManager_def s2)
  have l2: "listed_rules (fst (snd (AddRule 0 fw_quota_stored))) (snd (snd (AddRule 0 fw_quota_stored))) =
      [rule_ssh\<lparr>CreatedAt := 1001\<rparr>]"
    unfolding a1 by (simp add: fw_quota_stored_eq listed_rules_def ListRules_def)
  have d1: "rule_ssh\<lparr>CreatedAt := 1001\<rparr> \<noteq> rule_ssh\<lparr>CreatedAt := 1000\<rparr>"
    by (simp add: rule_ssh_def)
  have t2: "stamp_service ((web_instance ''a'' StatusHealthy)\<lparr>RegisteredAt := 1000, LastSeen := 1002\<rparr>)
        (clock0\<lparr>reads := Suc (Suc (Suc 0))\<rparr>) =
      ((web_instance ''a'' StatusUnknown)\<lparr>RegisteredAt := 1003, LastSeen := 1004\<rparr>,
       clock0\<lparr>reads := Suc (Suc (Suc (Suc (Suc 0))))\<rparr>)"
    by (simp add: stamp_service_def time_Now_def clock0_def web_instance_def)
  have l3: "listed_services (fst mesh_quota_stored) (snd mesh_quota_stored) =
     [(web_instance ''a'' StatusHealthy)\<lparr>RegisteredAt := 1000, LastSeen := 1002\<rparr>]"
    by (simp add: mesh_quota_stored_eq listed_services_def ListServices_def)
  have r1: "RegisterService 0 mesh_quota_stored =
      (Some ''failed to register service: registry full'', fst mesh_quota_stored,
       (snd mesh_quota_stored)
         \<lparr>mclock := clock0\<lparr>reads := Suc (Suc (Suc (Suc (Suc 0))))\<rparr>,
          service_heap := heap_web
            (0 := (web_instance ''a'' StatusUnknown)\<lparr>RegisteredAt := 1003, LastSeen := 1004\<rparr>)\<rparr>)"
    by (simp add: mesh_quota_stored_eq RegisterService_def call_Register_def QuotaDiscovery_def
        NewMeshManager_def t2)
  have l4: "listed_services (fst (snd (RegisterService 0 mesh_quota_stored)))
                    (snd (snd (RegisterService 0 mesh_quota_stored))) =
     [(web_instance ''a'' StatusUnknown)\<lparr>RegisteredAt := 1003, LastSeen := 1004\<rparr>]"
    unfolding r1 by (simp add: mesh_quota_stored_eq listed_services_def ListServices_def)
  have d2: "(web_instance ''a'' StatusUnknown)\<lparr>RegisteredAt := 1003, LastSeen := 1004\<rparr> \<noteq>
      (web_instance ''a'' StatusHealthy)\<lparr>RegisteredAt := 1000, LastSeen := 1002\<rparr>"
    by (simp add: web_instance_def)
  show ?thesis unfolding l1 l2 l3 l4 using a0 d1 d2 by (simp add: a1 r1)
qed
section \<open>The periodic sync\<close>

lemma found_iff: "found rule bs \<longleftrightarrow> (\<exists>b \<in> set bs. rulesEqual rule b)"
  by (induction bs) auto

text \<open>The loop of the sync in closed form: the world it leaves differs from the one it
  starts in by the calls of \<^verbatim>\<open>AddRule\<close> for the rules that are not found, in the
  backend's state and in the record of the calls.\<close>

lemma sync_rules_world:
  "sync_rules be bs rs w =
     w\<lparr>backend_state :=
         foldl (\<lambda>s r. snd (backend_AddRule be r s)) (backend_state w)
           (filter (\<lambda>r. \<not> found r bs) (map (rule_heap w) rs)),
       calls := calls w @ map CallAddRule (filter (\<lambda>r. \<not> found r bs) (map (rule_heap w) rs))\<rparr>"
proof (induction rs arbitrary: w)
  case Nil
  show ?case by simp
next
  case (Cons p rs)
  show ?case
  proof (cases "found (rule_heap w p) bs")
    case True
    then show ?thesis using Cons.IH [of w] by simp
  next
    case False
    obtain e s where b: "backend_AddRule be (rule_heap w p) (backend_state w) = (e, s)"
      by (cases "backend_AddRule be (rule_heap w p) (backend_state w)")
    have c: "snd (call_AddRule be (rule_heap w p) w) =
        w\<lparr>backend_state := s, calls := calls w @ [CallAddRule (rule_heap w p)]\<rparr>"
      by (simp add: call_AddRule_def b)
    show ?thesis
      using False Cons.IH [of "w\<lparr>backend_state := s, calls := calls w @ [CallAddRule (rule_heap w p)]\<rparr>"]
      by (simp add: c b)
  qed
qed

text \<open>
  C5. The periodic sync never calls \<^verbatim>\<open>DeleteRule\<close> of the backend: the calls it makes
  are the one of \<^verbatim>\<open>ListRules\<close> and calls of \<^verbatim>\<open>AddRule\<close> with rules of the desired
  store, so it never removes a rule of the backend that the store does not hold. When the
  backend has listed its rules, the rules of the desired store are gone through once,
  and a rule is added again if and only if no listed rule equals it on chain, protocol,
  source, destination, source port, destination port and action; the ID and the creation
  time have no part in the comparison. The state in which the sync leaves the backend is
  the one that these calls of the backend's \<^verbatim>\<open>AddRule\<close>, made one after the other from
  the state after the listing, lead to. When the listing fails the sync returns the
  error and makes no other call, and the backend is in the state in which the listing
  left it. The store, the rules in memory and the clock are left as they were.
\<close>

theorem sync_only_adds_missing:
  fixes m :: "'b Manager"
  shows
  "fst (snd (sync (m, w))) = m
 \<and> calls (snd (snd (sync (m, w)))) = calls w @ new_calls w (snd (snd (sync (m, w))))
 \<and> (\<forall>c \<in> set (new_calls w (snd (snd (sync (m, w))))).
       c = CallListRules \<or> (\<exists>r \<in> set (listed_rules m w). c = CallAddRule r))
 \<and> (backend_ListRules (backend m) (backend_state w) = ((bs, None), b) \<longrightarrow>
      fst (sync (m, w)) = None \<and>
      new_calls w (snd (snd (sync (m, w)))) =
        CallListRules #
        map CallAddRule (filter (\<lambda>r. \<not> (\<exists>x \<in> set bs. rulesEqual r x)) (listed_rules m w)) \<and>
      (\<forall>r \<in> set (listed_rules m w).
         CallAddRule r \<in> set (new_calls w (snd (snd (sync (m, w))))) \<longleftrightarrow>
         \<not> (\<exists>x \<in> set bs. rulesEqual r x)) \<and>
      snd (snd (sync (m, w))) =
        w\<lparr>backend_state :=
            foldl (\<lambda>s r. snd (backend_AddRule (backend m) r s)) b
              (filter (\<lambda>r. \<not> (\<exists>x \<in> set bs. rulesEqual r x)) (listed_rules m w)),
          calls := calls w @ CallListRules #
            map CallAddRule
              (filter (\<lambda>r. \<not> (\<exists>x \<in> set bs. rulesEqual r x)) (listed_rules m w))\<rparr>)
 \<and> (backend_ListRules (backend m) (backend_state w) = ((bs, Some e), b) \<longrightarrow>
      fst (sync (m, w)) = Some (''failed to list backend rules: '' @ e) \<and>
      new_calls w (snd (snd (sync (m, w)))) = [CallListRules] \<and>
      snd (snd (sync (m, w))) = w\<lparr>backend_state := b, calls := calls w @ [CallListRules]\<rparr>)
 \<and> rulesEqual (r1\<lparr>Rule.ID := i, CreatedAt := t\<rparr>) r2 = rulesEqual r1 r2
 \<and> rulesEqual r1 (r2\<lparr>Rule.ID := i, CreatedAt := t\<rparr>) = rulesEqual r1 r2"
proof -
  obtain bs' e' b' where l: "backend_ListRules (backend m) (backend_state w) = ((bs', e'), b')"
    by (metis surj_pair)
  have eq: "rulesEqual (r1\<lparr>Rule.ID := i, CreatedAt := t\<rparr>) r2 = rulesEqual r1 r2"
    "rulesEqual r1 (r2\<lparr>Rule.ID := i, CreatedAt := t\<rparr>) = rulesEqual r1 r2"
    by (simp_all add: rulesEqual_def)
  show ?thesis
  proof (cases e')
    case None
    let ?missing = "filter (\<lambda>r. \<not> (\<exists>x \<in> set bs'. rulesEqual r x)) (listed_rules m w)"
    from l None have s: "sync (m, w) =
        (None, m,
         w\<lparr>backend_state := foldl (\<lambda>s r. snd (backend_AddRule (backend m) r s)) b' ?missing,
           calls := calls w @ CallListRules # map CallAddRule ?missing\<rparr>)"
      by (simp add: sync_def call_ListRules_def sync_rules_world listed_rules_def ListRules_def
          found_iff)
    have n: "new_calls w (snd (snd (sync (m, w)))) = CallListRules # map CallAddRule ?missing"
      by (simp add: s new_calls_def)
    have m: "fst (snd (sync (m, w))) = m" and e: "fst (sync (m, w)) = None"
      by (simp_all add: s)
    have c: "calls (snd (snd (sync (m, w)))) = calls w @ CallListRules # map CallAddRule ?missing"
      by (simp add: s)
    have w': "snd (snd (sync (m, w))) =
        w\<lparr>backend_state := foldl (\<lambda>s r. snd (backend_AddRule (backend m) r s)) b' ?missing,
          calls := calls w @ CallListRules # map CallAddRule ?missing\<rparr>"
      by (simp add: s)
    show ?thesis unfolding n c eq m e using l None w' by auto
  next
    case (Some err)
    with l show ?thesis
      by (simp add: sync_def call_ListRules_def new_calls_def eq)
  qed
qed

text \<open>The store holds two rules and the backend lists the first under another ID: the
  sync adds the second and nothing else, and the backend then holds both.\<close>

theorem sync_only_adds_missing_witness:
  "backend_ListRules (backend manager_two_rules) (backend_state world_one_rule) =
     (([rule_ssh\<lparr>Rule.ID := ''kernel-7'', CreatedAt := 3\<rparr>], None),
      [rule_ssh\<lparr>Rule.ID := ''kernel-7'', CreatedAt := 3\<rparr>])
 \<and> listed_rules manager_two_rules world_one_rule = [rule_ssh, rule_ntp]
 \<and> rulesEqual rule_ssh (rule_ssh\<lparr>Rule.ID := ''kernel-7'', CreatedAt := 3\<rparr>)
 \<and> new_calls world_one_rule (snd (snd (sync (manager_two_rules, world_one_rule)))) =
     [CallListRules, CallAddRule rule_ntp]
 \<and> CallAddRule rule_ssh \<notin> set (new_calls world_one_rule (snd (snd (sync (manager_two_rules, world_one_rule)))))
 \<and> CallAddRule rule_ntp \<in> set (new_calls world_one_rule (snd (snd (sync (manager_two_rules, world_one_rule)))))
 \<and> backend_state (snd (snd (sync (manager_two_rules, world_one_rule)))) =
     [rule_ssh\<lparr>Rule.ID := ''kernel-7'', CreatedAt := 3\<rparr>, rule_ntp]
 \<and> snd (snd (sync (manager_two_rules, world_one_rule))) =
     world_one_rule\<lparr>backend_state := [rule_ssh\<lparr>Rule.ID := ''kernel-7'', CreatedAt := 3\<rparr>, rule_ntp],
                    calls := [CallListRules, CallAddRule rule_ntp]\<rparr>
 \<and> fst (snd (sync (manager_two_rules, world_one_rule))) = manager_two_rules
 \<and> backend_ListRules RefusingBackend () = (([], Some ''permission denied''), ())
 \<and> fst (sync (NewManager config0 RefusingBackend, world0)) =
     Some ''failed to list backend rules: permission denied''
 \<and> new_calls world0 (snd (snd (sync (NewManager config0 RefusingBackend, world0)))) =
     [CallListRules]
 \<and> backend_state (snd (snd (sync (NewManager config0 RefusingBackend, world0)))) = ()"
proof -
  have l: "backend_ListRules (backend manager_two_rules) (backend_state world_one_rule) =
     (([rule_ssh\<lparr>Rule.ID := ''kernel-7'', CreatedAt := 3\<rparr>], None),
      [rule_ssh\<lparr>Rule.ID := ''kernel-7'', CreatedAt := 3\<rparr>])"
    by (simp add: manager_two_rules_def world_one_rule_def MemoryBackend_def)
  have r: "listed_rules manager_two_rules world_one_rule = [rule_ssh, rule_ntp]"
    by (simp add: listed_rules_def ListRules_def manager_two_rules_def world_one_rule_def)
  have e1: "rulesEqual rule_ssh (rule_ssh\<lparr>Rule.ID := ''kernel-7'', CreatedAt := 3\<rparr>)"
    by (simp add: rulesEqual_def)
  have e2: "\<not> rulesEqual rule_ntp (rule_ssh\<lparr>Rule.ID := ''kernel-7'', CreatedAt := 3\<rparr>)"
    by (simp add: rulesEqual_def rule_ntp_def rule_ssh_def)
  have a: "backend_AddRule (backend manager_two_rules) = (\<lambda>rule s. (None, s @ [rule]))"
    by (simp add: manager_two_rules_def MemoryBackend_def)
  have c0: "calls world_one_rule = []" "calls world0 = []"
    by (simp_all add: world_one_rule_def world0_def)
  have l2: "backend_ListRules (backend (NewManager config0 RefusingBackend)) (backend_state world0) =
      (([], Some ''permission denied''), ())"
    "backend_ListRules RefusingBackend () = (([], Some ''permission denied''), ())"
    by (simp_all add: NewManager_def RefusingBackend_def world0_def)
  have d: "rule_ssh \<noteq> rule_ntp" by (simp add: rule_ssh_def rule_ntp_def)
  show ?thesis
    using sync_only_adds_missing [of manager_two_rules world_one_rule
        "[rule_ssh\<lparr>Rule.ID := ''kernel-7'', CreatedAt := 3\<rparr>]"
        "[rule_ssh\<lparr>Rule.ID := ''kernel-7'', CreatedAt := 3\<rparr>]"]
      sync_only_adds_missing [where m = "NewManager config0 RefusingBackend" and w = world0
        and bs = "[]" and e = "''permission denied''" and b = "()"]
      l e1 e2 l2 d
    unfolding r by (simp add: a c0 new_calls_def)
qed
section \<open>Start and Stop\<close>

text \<open>
  C9. For each manager (rule reconciler, service registry manager, health monitor),
  \<^verbatim>\<open>Start\<close> on a manager that is running fails with an ``already running'' error and
  \<^verbatim>\<open>Stop\<close> on one that is not running fails with a ``not running'' error, so a
  second \<^verbatim>\<open>Stop\<close> after one that succeeded fails; the manager, its store included,
  and what is outside it are left as they were.
\<close>

theorem lifecycle_misuse_rejected:
  fixes fm :: "'b Manager" and sm :: "'d MeshManager"
  shows
  "(Manager.running fm \<longrightarrow>
      Firewall_Start (fm, fw) = (Some ''firewall manager is already running'', fm, fw))
 \<and> (\<not> Manager.running fm \<longrightarrow>
      Firewall_Stop (fm, fw) = (Returns (Some ''firewall manager is not running''), fm, fw))
 \<and> (fst (Firewall_Stop (fm, fw)) = Returns None \<longrightarrow>
      Firewall_Stop (snd (Firewall_Stop (fm, fw))) =
        (Returns (Some ''firewall manager is not running''), snd (Firewall_Stop (fm, fw))))
 \<and> (MeshManager.running sm \<longrightarrow>
      ServiceMesh_Start (sm, sw) = (Some ''service mesh manager is already running'', sm, sw))
 \<and> (\<not> MeshManager.running sm \<longrightarrow>
      ServiceMesh_Stop (sm, sw) =
        (Returns (Some ''service mesh manager is not running''), sm, sw))
 \<and> (fst (ServiceMesh_Stop (sm, sw)) = Returns None \<longrightarrow>
      ServiceMesh_Stop (snd (ServiceMesh_Stop (sm, sw))) =
        (Returns (Some ''service mesh manager is not running''), snd (ServiceMesh_Stop (sm, sw))))
 \<and> (Checker.running c \<longrightarrow>
      Checker_Start (c, cw) = (Some ''health checker is already running'', c, cw))
 \<and> (\<not> Checker.running c \<longrightarrow>
      Checker_Stop (c, cw) = (Returns (Some ''health checker is not running''), c, cw))
 \<and> (fst (Checker_Stop (c, cw)) = Returns None \<longrightarrow>
      Checker_Stop (snd (Checker_Stop (c, cw))) =
        (Returns (Some ''health checker is not running''), snd (Checker_Stop (c, cw))))"
  by (simp add: Firewall_Start_def Firewall_Stop_def ServiceMesh_Start_def ServiceMesh_Stop_def
      Checker_Start_def Checker_Stop_def Let_def)

text \<open>Each manager once running and once new, which is not running.\<close>

theorem lifecycle_misuse_rejected_witness:
  "Manager.running fw_running
 \<and> Firewall_Start (fw_running, world0) =
     (Some ''firewall manager is already running'', fw_running, world0)
 \<and> fst (Firewall_Stop (fw_running, world0)) = Returns None
 \<and> Firewall_Stop (snd (Firewall_Stop (fw_running, world0))) =
     (Returns (Some ''firewall manager is not running''), snd (Firewall_Stop (fw_running, world0)))
 \<and> Firewall_Stop (NewManager config0 NFTablesBackend, world0) =
     (Returns (Some ''firewall manager is not running''), NewManager config0 NFTablesBackend, world0)
 \<and> ServiceMesh_Start (mesh_running, mesh_world_mixed) =
     (Some ''service mesh manager is already running'', mesh_running, mesh_world_mixed)
 \<and> fst (ServiceMesh_Stop (mesh_running, mesh_world_mixed)) = Returns None
 \<and> ServiceMesh_Stop (snd (ServiceMesh_Stop (mesh_running, mesh_world_mixed))) =
     (Returns (Some ''service mesh manager is not running''),
      snd (ServiceMesh_Stop (mesh_running, mesh_world_mixed)))
 \<and> ServiceMesh_Stop (mesh_static, mesh_world_mixed) =
     (Returns (Some ''service mesh manager is not running''), mesh_static, mesh_world_mixed)
 \<and> Checker_Start (checker_running, checker_world0) =
     (Some ''health checker is already running'', checker_running, checker_world0)
 \<and> fst (Checker_Stop (checker_running, checker_world0)) = Returns None
 \<and> Checker_Stop (snd (Checker_Stop (checker_running, checker_world0))) =
     (Returns (Some ''health checker is not running''),
      snd (Checker_Stop (checker_running, checker_world0)))
 \<and> Checker_Stop (NewChecker, checker_world0) =
     (Returns (Some ''health checker is not running''), NewChecker, checker_world0)"
proof -
  have r: "Manager.running fw_running" "MeshManager.running mesh_running"
    "Checker.running checker_running"
    by (simp_all add: fw_running_def mesh_running_def checker_running_def)
  have n: "\<not> Manager.running (NewManager config0 NFTablesBackend)"
    "\<not> MeshManager.running mesh_static" "\<not> Checker.running NewChecker"
    by (simp_all add: NewManager_def mesh_static_def NewMeshManager_def NewChecker_def)
  have s: "fst (Firewall_Stop (fw_running, world0)) = Returns None"
    "fst (ServiceMesh_Stop (mesh_running, mesh_world_mixed)) = Returns None"
    "fst (Checker_Stop (checker_running, checker_world0)) = Returns None"
    by (simp_all add: Firewall_Stop_def ServiceMesh_Stop_def Checker_Stop_def Let_def
        fw_running_def mesh_running_def checker_running_def NewManager_def mesh_static_def
        NewMeshManager_def NewChecker_def)
  show ?thesis
    using lifecycle_misuse_rejected [of fw_running world0 mesh_running mesh_world_mixed
        checker_running checker_world0]
      lifecycle_misuse_rejected [of "NewManager config0 NFTablesBackend" world0 mesh_static
        mesh_world_mixed NewChecker checker_world0]
      r n s
    by simp
qed

section \<open>Selecting an instance\<close>

text \<open>
  C4, as amended. For every service name whose discovery call succeeds,
  \<^verbatim>\<open>SelectService\<close> fails with a ``no instances found'' error when no instance was
  discovered at all; when instances were discovered and none of them has the status
  Healthy, it fails with a ``no healthy instances'' error and returns no instance;
  otherwise it returns what the configured load balancer selects from the instances
  whose status is Healthy, in the order of discovery.
\<close>

theorem SelectService_healthy_only:
  assumes "discovery_Discover (discovery m) name (discovery_state w) = ((found_services, None), d)"
  shows "SelectService name (m, w) =
     (if found_services = [] then
        ((None, Some (''no instances found for service: '' @ name)), m,
         w\<lparr>discovery_state := d\<rparr>)
      else if filter (\<lambda>s. Service.Status s = StatusHealthy) found_services = [] then
        ((None, Some (''no healthy instances found for service: '' @ name)), m,
         w\<lparr>discovery_state := d\<rparr>)
      else
        (fst (Select (loadBalance m) (filter (\<lambda>s. Service.Status s = StatusHealthy) found_services)),
         m\<lparr>loadBalance :=
             snd (Select (loadBalance m)
                    (filter (\<lambda>s. Service.Status s = StatusHealthy) found_services))\<rparr>,
         w\<lparr>discovery_state := d\<rparr>))"
  using assms
  by (simp add: SelectService_def DiscoverService_def call_Discover_def Let_def split: prod.splits)

text \<open>Of three instances, one unhealthy, one healthy and one unknown, the healthy one is
  selected; of a single unknown one, none.\<close>

theorem SelectService_healthy_only_witness:
  "discovery_Discover (discovery mesh_static) ''web'' (discovery_state mesh_world_mixed) =
     (([web_instance ''a'' StatusUnhealthy, web_instance ''b'' StatusHealthy,
        web_instance ''c'' StatusUnknown], None), discovery_state mesh_world_mixed)
 \<and> SelectService ''web'' (mesh_static, mesh_world_mixed) =
     ((Some (web_instance ''b'' StatusHealthy), None),
      mesh_static\<lparr>loadBalance := RoundRobinLoadBalancer 1\<rparr>, mesh_world_mixed)
 \<and> SelectService ''web'' (mesh_static, mesh_world_unknown) =
     ((None, Some ''no healthy instances found for service: web''), mesh_static,
      mesh_world_unknown)"
proof -
  have d1: "discovery_Discover (discovery mesh_static) ''web'' (discovery_state mesh_world_mixed) =
     (([web_instance ''a'' StatusUnhealthy, web_instance ''b'' StatusHealthy,
        web_instance ''c'' StatusUnknown], None), discovery_state mesh_world_mixed)"
    by (simp add: mesh_static_def NewMeshManager_def StaticDiscovery_def mesh_world_mixed_def
        static_lookup_def)
  have d2: "discovery_Discover (discovery mesh_static) ''web'' (discovery_state mesh_world_unknown) =
     (([web_instance ''c'' StatusUnknown], None), discovery_state mesh_world_unknown)"
    by (simp add: mesh_static_def NewMeshManager_def StaticDiscovery_def mesh_world_unknown_def
        static_lookup_def)
  have st: "Service.Status (web_instance ''a'' StatusUnhealthy) \<noteq> StatusHealthy"
    "Service.Status (web_instance ''b'' StatusHealthy) = StatusHealthy"
    "Service.Status (web_instance ''c'' StatusUnknown) \<noteq> StatusHealthy"
    by (simp_all add: web_instance_def StatusHealthy_def StatusUnhealthy_def StatusUnknown_def)
  have lb: "loadBalance mesh_static = RoundRobinLoadBalancer 0"
    by (simp add: mesh_static_def NewMeshManager_def)
  have rr: "RoundRobin_Select [web_instance ''b'' StatusHealthy] 0 =
      ((Some (web_instance ''b'' StatusHealthy), None), 1)"
    by (simp add: RoundRobin_Select_def Let_def)
  show ?thesis
    using SelectService_healthy_only [OF d1] SelectService_healthy_only [OF d2] d1 st
    by (simp add: lb rr)
qed

text \<open>
  The claim as it is written fails for a name under which nothing is registered: the discovery
  call succeeds with no instance, so that none is healthy, and the error is the one of
  the guard \<^verbatim>\<open>len(services) == 0\<close>, which is not the ``no healthy instances'' error.
\<close>

theorem SelectService_empty_counterexample:
  "discovery_Discover (discovery mesh_static) ''web'' (discovery_state mesh_world_empty) =
     (([], None), discovery_state mesh_world_empty)
 \<and> fst (SelectService ''web'' (mesh_static, mesh_world_empty)) =
     (None, Some ''no instances found for service: web'')
 \<and> fst (SelectService ''web'' (mesh_static, mesh_world_empty)) \<noteq>
     (None, Some ''no healthy instances found for service: web'')"
  by (simp add: SelectService_def DiscoverService_def call_Discover_def mesh_static_def
      NewMeshManager_def StaticDiscovery_def mesh_world_empty_def static_lookup_def)

section \<open>The status of a registered service\<close>

lemma Status_stamp_service: "Service.Status (fst (stamp_service service c)) = StatusUnknown"
  by (simp add: stamp_service_def split: prod.splits)

lemma HealthCheck_stamp_service:
  "HealthCheck (fst (stamp_service service c)) = HealthCheck service"
  by (simp add: stamp_service_def split: prod.splits)

text \<open>
  C8, as amended. Immediately after \<^verbatim>\<open>RegisterService\<close> succeeds, the service is in
  the store under its ID and its status is Unknown, whether the service has a
  health-check spec or not (the spec is left as the caller has set it); and
  \<^verbatim>\<open>SelectService\<close> returns no instance when every discovered instance has the status
  Unknown, so a service is not eligible for selection before its status has been set to
  Healthy.
\<close>

theorem registered_status_unknown:
  fixes m :: "'d MeshManager"
  shows
  "(RegisterService p (m, w) = (None, m', w') \<longrightarrow>
      map_of (services m') (Service.ID (service_heap w' p)) = Some p \<and>
      Service.Status (service_heap w' p) = StatusUnknown \<and>
      HealthCheck (service_heap w' p) = HealthCheck (service_heap w p))
 \<and> (discovery_Discover (discovery m) name (discovery_state w) = ((found_services, None), d) \<and>
      (\<forall>s \<in> set found_services. Service.Status s = StatusUnknown) \<longrightarrow>
      fst (fst (SelectService name (m, w))) = None \<and>
      snd (fst (SelectService name (m, w))) \<noteq> None)"
proof (intro conjI impI)
  assume a: "RegisterService p (m, w) = (None, m', w')"
  obtain s1 c where st: "stamp_service (service_heap w p) (mclock w) = (s1, c)"
    by (cases "stamp_service (service_heap w p) (mclock w)")
  from a st have h: "service_heap w' p = s1"
    and s: "services m' = AList.update (Service.ID s1) p (services m)"
    by (auto simp: RegisterService_def call_Register_def split: prod.splits option.splits)
  have u: "Service.Status s1 = StatusUnknown"
    using Status_stamp_service [of "service_heap w p" "mclock w"] st by simp
  have k: "HealthCheck s1 = HealthCheck (service_heap w p)"
    using HealthCheck_stamp_service [of "service_heap w p" "mclock w"] st by simp
  show "map_of (services m') (Service.ID (service_heap w' p)) = Some p"
    and "Service.Status (service_heap w' p) = StatusUnknown"
    and "HealthCheck (service_heap w' p) = HealthCheck (service_heap w p)"
    by (simp_all add: h s u k update_conv')
next
  assume a: "discovery_Discover (discovery m) name (discovery_state w) = ((found_services, None), d) \<and>
      (\<forall>s \<in> set found_services. Service.Status s = StatusUnknown)"
  then have "filter (\<lambda>s. Service.Status s = StatusHealthy) found_services = []"
    by (auto simp: filter_empty_conv StatusUnknown_def StatusHealthy_def)
  with a show "fst (fst (SelectService name (m, w))) = None"
    and "snd (fst (SelectService name (m, w))) \<noteq> None"
    by (simp_all add: SelectService_def DiscoverService_def call_Discover_def Let_def
        split: prod.splits)
qed

lemma register_web_instance:
  "RegisterService 0 (mesh_static, mesh_world_empty) =
     (None,
      mesh_static\<lparr>services := [(''a'', 0)]\<rparr>,
      \<lparr>discovery_state =
         [(''web'', [(web_instance ''a'' StatusUnknown)\<lparr>RegisteredAt := 1000, LastSeen := 1001\<rparr>])],
       mclock = clock0\<lparr>reads := Suc (Suc 0)\<rparr>,
       service_heap = heap_web
         (0 := (web_instance ''a'' StatusUnknown)\<lparr>RegisteredAt := 1000, LastSeen := 1001\<rparr>)\<rparr>)"
proof -
  have s1: "stamp_service (web_instance ''a'' StatusHealthy) clock0 =
      ((web_instance ''a'' StatusUnknown)\<lparr>RegisteredAt := 1000, LastSeen := 1001\<rparr>,
       clock0\<lparr>reads := Suc (Suc 0)\<rparr>)"
    by (simp add: stamp_service_def time_Now_def clock0_def web_instance_def)
  have i: "Service.ID ((web_instance ''a'' StatusUnknown)\<lparr>RegisteredAt := 1000, LastSeen := 1001\<rparr>) = ''a''"
    "Name ((web_instance ''a'' StatusUnknown)\<lparr>RegisteredAt := 1000, LastSeen := 1001\<rparr>) = ''web''"
    by (simp_all add: web_instance_def)
  have h: "heap_web 0 = web_instance ''a'' StatusHealthy" by (simp add: heap_web_def)
  show ?thesis
    by (simp add: RegisterService_def call_Register_def mesh_static_def NewMeshManager_def
        StaticDiscovery_def mesh_world_empty_def static_lookup_def s1 i h)
qed

text \<open>A service without a health check is registered with the in-process registry and
  looked for at once.\<close>

theorem registered_status_unknown_witness:
  "fst (RegisterService 0 (mesh_static, mesh_world_empty)) = None
 \<and> map_of (services (fst (snd (RegisterService 0 (mesh_static, mesh_world_empty))))) ''a'' = Some 0
 \<and> service_heap (snd (snd (RegisterService 0 (mesh_static, mesh_world_empty)))) 0 =
     (web_instance ''a'' StatusUnknown)\<lparr>RegisteredAt := 1000, LastSeen := 1001\<rparr>
 \<and> Service.Status (service_heap (snd (snd (RegisterService 0 (mesh_static, mesh_world_empty)))) 0) =
     StatusUnknown
 \<and> discovery_Discover (discovery mesh_static) ''web'' (discovery_state mesh_world_unknown) =
     (([web_instance ''c'' StatusUnknown], None), discovery_state mesh_world_unknown)
 \<and> fst (fst (SelectService ''web'' (mesh_static, mesh_world_unknown))) = None
 \<and> snd (fst (SelectService ''web'' (mesh_static, mesh_world_unknown))) \<noteq> None"
proof -
  have d: "discovery_Discover (discovery mesh_static) ''web'' (discovery_state mesh_world_unknown) =
     (([web_instance ''c'' StatusUnknown], None), discovery_state mesh_world_unknown)"
    by (simp add: mesh_static_def NewMeshManager_def StaticDiscovery_def mesh_world_unknown_def
        static_lookup_def)
  have u: "\<forall>s \<in> set [web_instance ''c'' StatusUnknown]. Service.Status s = StatusUnknown"
    by (simp add: web_instance_def)
  have i: "Service.ID ((web_instance ''a'' StatusUnknown)\<lparr>RegisteredAt := 1000, LastSeen := 1001\<rparr>) = ''a''"
    by (simp add: web_instance_def)
  note t1 = registered_status_unknown [where p = 0 and m = mesh_static and w = mesh_world_empty
      and m' = "mesh_static\<lparr>services := [(''a'', 0)]\<rparr>"
      and w' = "\<lparr>discovery_state =
          [(''web'', [(web_instance ''a'' StatusUnknown)\<lparr>RegisteredAt := 1000, LastSeen := 1001\<rparr>])],
          mclock = clock0\<lparr>reads := Suc (Suc 0)\<rparr>,
          service_heap = heap_web
            (0 := (web_instance ''a'' StatusUnknown)\<lparr>RegisteredAt := 1000, LastSeen := 1001\<rparr>)\<rparr>"]
  note t2 = registered_status_unknown [where m = mesh_static and w = mesh_world_unknown
      and name = "''web''" and found_services = "[web_instance ''c'' StatusUnknown]"
      and d = "discovery_state mesh_world_unknown"]
  from t1 register_web_instance
  have r: "map_of (services (mesh_static\<lparr>services := [(''a'', 0)]\<rparr>))
        (Service.ID ((heap_web
            (0 := (web_instance ''a'' StatusUnknown)\<lparr>RegisteredAt := 1000, LastSeen := 1001\<rparr>)) 0)) =
      Some 0"
    and r2: "Service.Status ((heap_web
            (0 := (web_instance ''a'' StatusUnknown)\<lparr>RegisteredAt := 1000, LastSeen := 1001\<rparr>)) 0) =
      StatusUnknown"
    by simp_all
  from t2 d u have s: "fst (fst (SelectService ''web'' (mesh_static, mesh_world_unknown))) = None"
    "snd (fst (SelectService ''web'' (mesh_static, mesh_world_unknown))) \<noteq> None"
    by blast+
  show ?thesis
    using r r2 s d by (simp add: register_web_instance i)
qed

text \<open>
  The claim as it is written fails: \<^verbatim>\<open>RegisterService\<close> sets \<^verbatim>\<open>StatusUnknown\<close> without
  looking at the health-check spec. A service without one is stored as Unknown, and
  \<^verbatim>\<open>SelectService\<close>, which finds it, does not select it.
\<close>

theorem registered_without_check_counterexample:
  "HealthCheck (service_heap mesh_world_empty 0) = None
 \<and> fst (RegisterService 0 (mesh_static, mesh_world_empty)) = None
 \<and> map_of (services (fst (snd (RegisterService 0 (mesh_static, mesh_world_empty))))) ''a'' = Some 0
 \<and> Service.Status (service_heap (snd (snd (RegisterService 0 (mesh_static, mesh_world_empty)))) 0) =
     StatusUnknown
 \<and> StatusUnknown \<noteq> StatusHealthy
 \<and> fst (SelectService ''web'' (snd (RegisterService 0 (mesh_static, mesh_world_empty)))) =
     (None, Some ''no healthy instances found for service: web'')"
proof -
  have h: "HealthCheck (service_heap mesh_world_empty 0) = None"
    by (simp add: mesh_world_empty_def heap_web_def web_instance_def)
  have n: "StatusUnknown \<noteq> StatusHealthy"
    by (simp add: StatusUnknown_def StatusHealthy_def)
  have u: "Service.Status ((web_instance ''a'' StatusUnknown)\<lparr>RegisteredAt := 1000, LastSeen := 1001\<rparr>) =
      StatusUnknown"
    by (simp add: web_instance_def)
  have s: "fst (SelectService ''web''
      (mesh_static\<lparr>services := [(''a'', 0)]\<rparr>,
      \<lparr>discovery_state =
         [(''web'', [(web_instance ''a'' StatusUnknown)\<lparr>RegisteredAt := 1000, LastSeen := 1001\<rparr>])],
       mclock = clock0\<lparr>reads := Suc (Suc 0)\<rparr>,
       service_heap = heap_web
         (0 := (web_instance ''a'' StatusUnknown)\<lparr>RegisteredAt := 1000, LastSeen := 1001\<rparr>)\<rparr>)) =
     (None, Some ''no healthy instances found for service: web'')"
    by (simp add: SelectService_def DiscoverService_def call_Discover_def mesh_static_def
        NewMeshManager_def StaticDiscovery_def static_lookup_def web_instance_def
        StatusUnknown_def StatusHealthy_def)
  show ?thesis
    using h n s u by (simp add: register_web_instance)
qed
section \<open>Round robin\<close>

lemma RoundRobin_index:
  assumes "svcs \<noteq> []" "length svcs < 2 ^ 64"
  shows "unat ((c :: 64 word) mod word_of_nat (length svcs)) = unat c mod length svcs"
  using assms by (simp add: unat_mod unat_of_nat)

lemma unat_succ_small:
  fixes c :: "64 word"
  assumes "unat c + 1 < 2 ^ 64"
  shows "unat (c + 1) = unat c + 1"
  using assms by (simp add: unat_add_lem [THEN iffD1])

lemma RoundRobin_Selects_Suc:
  assumes "svcs \<noteq> []" "length svcs < 2 ^ 64"
  shows "fst (RoundRobin_Selects (Suc n) svcs c) =
     Some (svcs ! (unat (c + 1) mod length svcs)) # fst (RoundRobin_Selects n svcs (c + 1))"
  using assms by (simp add: RoundRobin_Select_def Let_def RoundRobin_index split: prod.splits)

lemma RoundRobin_Selects_rotation:
  assumes "svcs \<noteq> []" "length svcs < 2 ^ 64" "unat c + n < 2 ^ 64"
  shows "fst (RoundRobin_Selects n svcs c) =
     map (\<lambda>k. Some (svcs ! ((unat c + Suc k) mod length svcs))) [0..<n]"
  using assms(3)
proof (induction n arbitrary: c)
  case 0
  then show ?case by simp
next
  case (Suc n)
  have u: "unat (c + 1) = unat c + 1" using Suc.prems by (intro unat_succ_small) simp
  then have "unat (c + 1) + n < 2 ^ 64" using Suc.prems by simp
  from Suc.IH [OF this]
  have ih: "fst (RoundRobin_Selects n svcs (c + 1)) =
      map (\<lambda>k. Some (svcs ! ((unat c + Suc (Suc k)) mod length svcs))) [0..<n]"
    by (simp add: u)
  have "map (\<lambda>k. Some (svcs ! ((unat c + Suc k) mod length svcs))) [0..<Suc n] =
      Some (svcs ! ((unat c + Suc 0) mod length svcs)) #
      map (\<lambda>k. Some (svcs ! ((unat c + Suc (Suc k)) mod length svcs))) [0..<n]"
    by (rule map_upt_Suc)
  then show ?case
    unfolding RoundRobin_Selects_Suc [OF assms(1,2)] ih u by simp
qed

text \<open>
  C6. \<^verbatim>\<open>Select\<close> of the round-robin balancer over a list that is not empty (and
  as long as a slice can be) returns the element at the index that is the counter modulo
  the length of the list, for a counter that has gone up by one with the call; so \<open>n\<close>
  calls in a row over the same list, the \<^verbatim>\<open>uint64\<close> counter not wrapping in between,
  return its elements in turn, starting after the position the counter stands at. On a
  new balancer, 6 calls in a row over three instances \<open>[A, B, C]\<close> return
  \<open>B, C, A, B, C, A\<close>, each instance exactly twice.
\<close>

theorem round_robin_rotation:
  "(svcs \<noteq> [] \<and> length svcs < 2 ^ 64 \<longrightarrow>
      RoundRobin_Select svcs c =
        ((Some (svcs ! (unat (c + 1) mod length svcs)), None), c + 1))
 \<and> (svcs \<noteq> [] \<and> length svcs < 2 ^ 64 \<and> unat c + n < 2 ^ 64 \<longrightarrow>
      fst (RoundRobin_Selects n svcs c) =
        map (\<lambda>k. Some (svcs ! ((unat c + Suc k) mod length svcs))) [0..<n])
 \<and> fst (RoundRobin_Selects 6 [A, B, C] 0) = [Some B, Some C, Some A, Some B, Some C, Some A]
 \<and> (distinct [A, B, C] \<longrightarrow>
      (\<forall>x \<in> set [A, B, C]. count_list (fst (RoundRobin_Selects 6 [A, B, C] 0)) (Some x) = 2))"
proof (intro conjI impI)
  assume "svcs \<noteq> [] \<and> length svcs < 2 ^ 64"
  then show "RoundRobin_Select svcs c =
        ((Some (svcs ! (unat (c + 1) mod length svcs)), None), c + 1)"
    by (simp add: RoundRobin_Select_def Let_def RoundRobin_index)
next
  assume "svcs \<noteq> [] \<and> length svcs < 2 ^ 64 \<and> unat c + n < 2 ^ 64"
  then show "fst (RoundRobin_Selects n svcs c) =
        map (\<lambda>k. Some (svcs ! ((unat c + Suc k) mod length svcs))) [0..<n]"
    by (intro RoundRobin_Selects_rotation) simp_all
next
  have six: "(6::nat) = Suc (Suc (Suc (Suc (Suc (Suc 0)))))" by simp
  show r: "fst (RoundRobin_Selects 6 [A, B, C] 0) = [Some B, Some C, Some A, Some B, Some C, Some A]"
    unfolding six by (simp add: RoundRobin_Select_def Let_def)
  assume "distinct [A, B, C]"
  then show "\<forall>x \<in> set [A, B, C]. count_list (fst (RoundRobin_Selects 6 [A, B, C] 0)) (Some x) = 2"
    unfolding r by auto
qed

text \<open>Three instances and a counter that stands at 4: the next two calls return the
  third and the first.\<close>

theorem round_robin_rotation_witness:
  "RoundRobin_Select
     [web_instance ''a'' StatusHealthy, web_instance ''b'' StatusHealthy,
      web_instance ''c'' StatusHealthy] 4 =
     ((Some (web_instance ''c'' StatusHealthy), None), 5)
 \<and> fst (RoundRobin_Selects 2
      [web_instance ''a'' StatusHealthy, web_instance ''b'' StatusHealthy,
       web_instance ''c'' StatusHealthy] 4) =
     [Some (web_instance ''c'' StatusHealthy), Some (web_instance ''a'' StatusHealthy)]
 \<and> distinct [web_instance ''a'' StatusHealthy, web_instance ''b'' StatusHealthy,
      web_instance ''c'' StatusHealthy]
 \<and> count_list (fst (RoundRobin_Selects 6
      [web_instance ''a'' StatusHealthy, web_instance ''b'' StatusHealthy,
       web_instance ''c'' StatusHealthy] 0)) (Some (web_instance ''a'' StatusHealthy)) = 2
 \<and> count_list (fst (RoundRobin_Selects 6
      [web_instance ''a'' StatusHealthy, web_instance ''b'' StatusHealthy,
       web_instance ''c'' StatusHealthy] 0)) (Some (web_instance ''b'' StatusHealthy)) = 2
 \<and> count_list (fst (RoundRobin_Selects 6
      [web_instance ''a'' StatusHealthy, web_instance ''b'' StatusHealthy,
       web_instance ''c'' StatusHealthy] 0)) (Some (web_instance ''c'' StatusHealthy)) = 2"
proof -
  have d: "distinct [web_instance ''a'' StatusHealthy, web_instance ''b'' StatusHealthy,
      web_instance ''c'' StatusHealthy]"
    by (simp add: web_instance_def)
  have i: "unat (4 + 1 :: 64 word) mod 3 = 2" "unat (4 :: 64 word) + 2 < 2 ^ 64"
    "(unat (4 :: 64 word) + Suc 0) mod 3 = 2" "(unat (4 :: 64 word) + Suc (Suc 0)) mod 3 = 0"
    by simp_all
  have two: "[0..<2] = [0, Suc 0]" by (simp add: upt_rec)
  show ?thesis
    using round_robin_rotation [of
        "[web_instance ''a'' StatusHealthy, web_instance ''b'' StatusHealthy,
          web_instance ''c'' StatusHealthy]" 4 2
        "web_instance ''a'' StatusHealthy" "web_instance ''b'' StatusHealthy"
        "web_instance ''c'' StatusHealthy"] d i two
    by (simp add: web_instance_def)
qed

section \<open>Least connections\<close>

lemma sint_succ:
  fixes c :: "64 word"
  assumes "sint c < 2 ^ 63 - 1"
  shows "sint (c + 1) = sint c + 1"
proof -
  have "- (2 ^ 63) \<le> sint c" using sint_ge [of c] by simp
  then have "signed_take_bit 63 (sint c + 1) = sint c + 1"
    using assms by (intro signed_take_bit_int_eq_self) simp_all
  then show ?thesis by (simp add: sint_word_add)
qed

lemma sint_pred:
  fixes c :: "64 word"
  assumes "0 < sint c"
  shows "sint (c - 1) = sint c - 1"
proof -
  have "sint c < 2 ^ 63" using sint_lt [of c] by simp
  then have "signed_take_bit 63 (sint c - 1) = sint c - 1"
    using assms by (intro signed_take_bit_int_eq_self) simp_all
  then show ?thesis by (simp add: sint_word_diff)
qed

text \<open>The loop, once it holds a candidate with a count that is not negative: it keeps
  the candidate when no later count is smaller and otherwise ends with the first service
  of the smallest count.\<close>

lemma leastConn_loop_scan:
  assumes "0 \<le> sint minConn"
    and "\<forall>x \<in> set xs. 0 \<le> sint (conn_of conns (Service.ID x))"
  shows "(leastConn_loop conns xs (Some s, minConn) = (Some s, minConn) \<and>
          (\<forall>x \<in> set xs. sint minConn \<le> sint (conn_of conns (Service.ID x))))
       \<or> (\<exists>pre sel post. scan_result conns xs s minConn pre sel post)"
  using assms
proof (induction xs arbitrary: s minConn)
  case Nil
  then show ?case by simp
next
  case (Cons x xs)
  let ?c = "\<lambda>y. sint (conn_of conns (Service.ID y))"
  have ne: "minConn \<noteq> - 1" using Cons.prems(1) by auto
  show ?case
  proof (cases "?c x < sint minConn")
    case True
    then have step: "leastConn_loop conns (x # xs) (Some s, minConn) =
        leastConn_loop conns xs (Some x, conn_of conns (Service.ID x))"
      by (simp add: word_sless_alt Let_def)
    from Cons.prems have p: "0 \<le> ?c x" "\<forall>y \<in> set xs. 0 \<le> ?c y" by simp_all
    from Cons.IH [OF p, of x] show ?thesis
    proof
      assume a: "leastConn_loop conns xs (Some x, conn_of conns (Service.ID x)) =
          (Some x, conn_of conns (Service.ID x)) \<and> (\<forall>y \<in> set xs. ?c x \<le> ?c y)"
      have "scan_result conns (x # xs) s minConn [] x xs"
        unfolding scan_result_def step using a True by simp
      then show ?thesis by blast
    next
      assume "\<exists>pre sel post. scan_result conns xs x (conn_of conns (Service.ID x)) pre sel post"
      then obtain pre sel post
        where b: "scan_result conns xs x (conn_of conns (Service.ID x)) pre sel post"
        by blast
      have "scan_result conns (x # xs) s minConn (x # pre) sel post"
        using b True unfolding scan_result_def step by auto
      then show ?thesis by blast
    qed
  next
    case False
    then have step: "leastConn_loop conns (x # xs) (Some s, minConn) =
        leastConn_loop conns xs (Some s, minConn)"
      using ne by (simp add: word_sless_alt Let_def)
    from Cons.prems have p: "0 \<le> sint minConn" "\<forall>y \<in> set xs. 0 \<le> ?c y" by simp_all
    from Cons.IH [OF p, of s] show ?thesis
    proof
      assume "leastConn_loop conns xs (Some s, minConn) = (Some s, minConn) \<and>
          (\<forall>y \<in> set xs. sint minConn \<le> ?c y)"
      with step False show ?thesis by simp
    next
      assume "\<exists>pre sel post. scan_result conns xs s minConn pre sel post"
      then obtain pre sel post where b: "scan_result conns xs s minConn pre sel post"
        by blast
      have "scan_result conns (x # xs) s minConn (x # pre) sel post"
        using b False unfolding scan_result_def step by auto
      then show ?thesis by blast
    qed
  qed
qed

lemma leastConn_first_minimum:
  assumes "svcs \<noteq> []"
    and "\<forall>x \<in> set svcs. 0 \<le> sint (conn_of conns (Service.ID x))"
  shows "\<exists>pre sel post. svcs = pre @ sel # post \<and>
           fst (leastConn_loop conns svcs (None, - 1)) = Some sel \<and>
           (\<forall>y \<in> set pre. sint (conn_of conns (Service.ID sel)) < sint (conn_of conns (Service.ID y))) \<and>
           (\<forall>y \<in> set post. sint (conn_of conns (Service.ID sel)) \<le> sint (conn_of conns (Service.ID y)))"
proof -
  let ?c = "\<lambda>y. sint (conn_of conns (Service.ID y))"
  obtain x xs where xs: "svcs = x # xs" using assms(1) by (cases svcs) auto
  have step: "leastConn_loop conns svcs (None, - 1) =
      leastConn_loop conns xs (Some x, conn_of conns (Service.ID x))"
    by (simp add: xs Let_def)
  from assms(2) xs have p: "0 \<le> ?c x" "\<forall>y \<in> set xs. 0 \<le> ?c y" by simp_all
  from leastConn_loop_scan [OF p, of x] show ?thesis
  proof
    assume a: "leastConn_loop conns xs (Some x, conn_of conns (Service.ID x)) =
        (Some x, conn_of conns (Service.ID x)) \<and> (\<forall>y \<in> set xs. ?c x \<le> ?c y)"
    show ?thesis
      apply (rule exI [of _ "[]"], rule exI [of _ x], rule exI [of _ xs])
      using a step xs by simp
  next
    assume "\<exists>pre sel post. scan_result conns xs x (conn_of conns (Service.ID x)) pre sel post"
    then obtain pre sel post
      where b: "scan_result conns xs x (conn_of conns (Service.ID x)) pre sel post"
      by blast
    show ?thesis
      apply (rule exI [of _ "x # pre"], rule exI [of _ sel], rule exI [of _ post])
      using b step xs unfolding scan_result_def by auto
  qed
qed

text \<open>
  C7. \<^verbatim>\<open>Select\<close> of the least-connection balancer over a list that is not empty
  returns the first service in the order of the list whose count of outstanding
  connections is the smallest (every service before it has a larger count, none after it
  a smaller one), and adds one to the count of that service; the counts of the listed
  services are not negative, which no count of a balancer ever is. With all counts equal it
  returns the first service of the list. With the counts \<open>{A: 2, B: 0, C: 1}\<close> it returns
  \<open>B\<close>, and with \<open>{A: 1, B: 1, C: 1}\<close> it returns \<open>A\<close>.
\<close>

theorem least_conn_selects_first_minimum:
  "(svcs \<noteq> [] \<and> (\<forall>x \<in> set svcs. 0 \<le>s conn_of conns (Service.ID x)) \<longrightarrow>
      (\<exists>pre sel post.
         svcs = pre @ sel # post \<and>
         (\<forall>y \<in> set pre. conn_of conns (Service.ID sel) <s conn_of conns (Service.ID y)) \<and>
         (\<forall>y \<in> set post. conn_of conns (Service.ID sel) \<le>s conn_of conns (Service.ID y)) \<and>
         LeastConn_Select svcs conns =
           ((Some sel, None), conns(Service.ID sel \<mapsto> conn_of conns (Service.ID sel) + 1))))
 \<and> (svcs \<noteq> [] \<and> 0 \<le>s k \<and> (\<forall>x \<in> set svcs. conn_of conns (Service.ID x) = k) \<longrightarrow>
      fst (fst (LeastConn_Select svcs conns)) = Some (hd svcs))
 \<and> fst (LeastConn_Select
      [web_instance ''A'' StatusHealthy, web_instance ''B'' StatusHealthy,
       web_instance ''C'' StatusHealthy] [''A'' \<mapsto> 2, ''B'' \<mapsto> 0, ''C'' \<mapsto> 1]) =
      (Some (web_instance ''B'' StatusHealthy), None)
 \<and> fst (LeastConn_Select
      [web_instance ''A'' StatusHealthy, web_instance ''B'' StatusHealthy,
       web_instance ''C'' StatusHealthy] [''A'' \<mapsto> 1, ''B'' \<mapsto> 1, ''C'' \<mapsto> 1]) =
      (Some (web_instance ''A'' StatusHealthy), None)"
proof (intro conjI impI)
  assume a: "svcs \<noteq> [] \<and> (\<forall>x \<in> set svcs. 0 \<le>s conn_of conns (Service.ID x))"
  then have "\<forall>x \<in> set svcs. 0 \<le> sint (conn_of conns (Service.ID x))"
    by (simp add: word_sle_eq)
  from leastConn_first_minimum [OF _ this] a
  obtain pre sel post where b: "svcs = pre @ sel # post"
    "fst (leastConn_loop conns svcs (None, - 1)) = Some sel"
    "\<forall>y \<in> set pre. sint (conn_of conns (Service.ID sel)) < sint (conn_of conns (Service.ID y))"
    "\<forall>y \<in> set post. sint (conn_of conns (Service.ID sel)) \<le> sint (conn_of conns (Service.ID y))"
    by blast
  have "LeastConn_Select svcs conns =
           ((Some sel, None), conns(Service.ID sel \<mapsto> conn_of conns (Service.ID sel) + 1))"
    using a b(2) by (simp add: LeastConn_Select_def)
  with b(1,3,4) show "\<exists>pre sel post.
         svcs = pre @ sel # post \<and>
         (\<forall>y \<in> set pre. conn_of conns (Service.ID sel) <s conn_of conns (Service.ID y)) \<and>
         (\<forall>y \<in> set post. conn_of conns (Service.ID sel) \<le>s conn_of conns (Service.ID y)) \<and>
         LeastConn_Select svcs conns =
           ((Some sel, None), conns(Service.ID sel \<mapsto> conn_of conns (Service.ID sel) + 1))"
    unfolding word_sle_eq word_sless_alt by blast
next
  assume a: "svcs \<noteq> [] \<and> 0 \<le>s k \<and> (\<forall>x \<in> set svcs. conn_of conns (Service.ID x) = k)"
  then have "\<forall>x \<in> set svcs. 0 \<le> sint (conn_of conns (Service.ID x))"
    by (simp add: word_sle_eq)
  from leastConn_first_minimum [OF _ this] a
  obtain pre sel post where b: "svcs = pre @ sel # post"
    "fst (leastConn_loop conns svcs (None, - 1)) = Some sel"
    "\<forall>y \<in> set pre. sint (conn_of conns (Service.ID sel)) < sint (conn_of conns (Service.ID y))"
    by blast
  have "pre = []"
  proof (cases pre)
    case Nil then show ?thesis .
  next
    case (Cons y ys)
    then have "y \<in> set svcs" "y \<in> set pre" using b(1) by simp_all
    moreover have "sel \<in> set svcs" using b(1) by simp
    ultimately show ?thesis using a b(3) by fastforce
  qed
  then have "hd svcs = sel" using b(1) by simp
  then show "fst (fst (LeastConn_Select svcs conns)) = Some (hd svcs)"
    using a b(2) by (simp add: LeastConn_Select_def)
next
  show "fst (LeastConn_Select
      [web_instance ''A'' StatusHealthy, web_instance ''B'' StatusHealthy,
       web_instance ''C'' StatusHealthy] [''A'' \<mapsto> 2, ''B'' \<mapsto> 0, ''C'' \<mapsto> 1]) =
      (Some (web_instance ''B'' StatusHealthy), None)"
    by (simp add: LeastConn_Select_def conn_of_def web_instance_def Let_def word_sless_alt)
next
  show "fst (LeastConn_Select
      [web_instance ''A'' StatusHealthy, web_instance ''B'' StatusHealthy,
       web_instance ''C'' StatusHealthy] [''A'' \<mapsto> 1, ''B'' \<mapsto> 1, ''C'' \<mapsto> 1]) =
      (Some (web_instance ''A'' StatusHealthy), None)"
    by (simp add: LeastConn_Select_def conn_of_def web_instance_def Let_def word_sless_alt)
qed

text \<open>The counts \<open>{A: 2, B: 0, C: 1}\<close>: \<open>B\<close> is selected and its count becomes 1; and
  two services that both have the count 1.\<close>

theorem least_conn_selects_first_minimum_witness:
  "0 \<le>s conn_of [''A'' \<mapsto> 2, ''B'' \<mapsto> 0, ''C'' \<mapsto> 1] ''A''
 \<and> 0 \<le>s conn_of [''A'' \<mapsto> 2, ''B'' \<mapsto> 0, ''C'' \<mapsto> 1] ''B''
 \<and> 0 \<le>s conn_of [''A'' \<mapsto> 2, ''B'' \<mapsto> 0, ''C'' \<mapsto> 1] ''C''
 \<and> LeastConn_Select
      [web_instance ''A'' StatusHealthy, web_instance ''B'' StatusHealthy,
       web_instance ''C'' StatusHealthy] [''A'' \<mapsto> 2, ''B'' \<mapsto> 0, ''C'' \<mapsto> 1] =
     ((Some (web_instance ''B'' StatusHealthy), None), [''A'' \<mapsto> 2, ''B'' \<mapsto> 1, ''C'' \<mapsto> 1])
 \<and> conn_of [''A'' \<mapsto> 1, ''B'' \<mapsto> 1] ''A'' = 1
 \<and> conn_of [''A'' \<mapsto> 1, ''B'' \<mapsto> 1] ''B'' = 1
 \<and> 0 \<le>s (1 :: 64 word)
 \<and> fst (fst (LeastConn_Select [web_instance ''A'' StatusHealthy, web_instance ''B'' StatusHealthy]
      [''A'' \<mapsto> 1, ''B'' \<mapsto> 1])) = Some (web_instance ''A'' StatusHealthy)"
proof -
  have c: "0 \<le>s conn_of [''A'' \<mapsto> 2, ''B'' \<mapsto> 0, ''C'' \<mapsto> 1] ''A''"
    "0 \<le>s conn_of [''A'' \<mapsto> 2, ''B'' \<mapsto> 0, ''C'' \<mapsto> 1] ''B''"
    "0 \<le>s conn_of [''A'' \<mapsto> 2, ''B'' \<mapsto> 0, ''C'' \<mapsto> 1] ''C''"
    by (simp_all add: conn_of_def word_sle_eq)
  have e: "conn_of [''A'' \<mapsto> 1, ''B'' \<mapsto> 1] ''A'' = 1" "conn_of [''A'' \<mapsto> 1, ''B'' \<mapsto> 1] ''B'' = 1"
    "0 \<le>s (1 :: 64 word)"
    by (simp_all add: conn_of_def word_sle_eq)
  have i: "Service.ID (web_instance ''A'' StatusHealthy) = ''A''"
    "Service.ID (web_instance ''B'' StatusHealthy) = ''B''"
    "Service.ID (web_instance ''C'' StatusHealthy) = ''C''"
    by (simp_all add: web_instance_def)
  have first: "\<exists>pre sel post.
      [web_instance ''A'' StatusHealthy, web_instance ''B'' StatusHealthy,
       web_instance ''C'' StatusHealthy] = pre @ sel # post \<and>
      LeastConn_Select
        [web_instance ''A'' StatusHealthy, web_instance ''B'' StatusHealthy,
         web_instance ''C'' StatusHealthy] [''A'' \<mapsto> 2, ''B'' \<mapsto> 0, ''C'' \<mapsto> 1] =
      ((Some sel, None),
       [''A'' \<mapsto> 2, ''B'' \<mapsto> 0, ''C'' \<mapsto> 1](Service.ID sel \<mapsto>
          conn_of [''A'' \<mapsto> 2, ''B'' \<mapsto> 0, ''C'' \<mapsto> 1] (Service.ID sel) + 1))"
    using least_conn_selects_first_minimum [where
        svcs = "[web_instance ''A'' StatusHealthy, web_instance ''B'' StatusHealthy,
                 web_instance ''C'' StatusHealthy]"
        and conns = "[''A'' \<mapsto> 2, ''B'' \<mapsto> 0, ''C'' \<mapsto> 1]"] c i
    by simp blast
  have s: "LeastConn_Select
      [web_instance ''A'' StatusHealthy, web_instance ''B'' StatusHealthy,
       web_instance ''C'' StatusHealthy] [''A'' \<mapsto> 2, ''B'' \<mapsto> 0, ''C'' \<mapsto> 1] =
     ((Some (web_instance ''B'' StatusHealthy), None), [''A'' \<mapsto> 2, ''B'' \<mapsto> 1, ''C'' \<mapsto> 1])"
    by (simp add: LeastConn_Select_def conn_of_def i Let_def word_sless_alt fun_upd_twist)
  have h: "fst (fst (LeastConn_Select [web_instance ''A'' StatusHealthy, web_instance ''B'' StatusHealthy]
      [''A'' \<mapsto> 1, ''B'' \<mapsto> 1])) = Some (web_instance ''A'' StatusHealthy)"
    using least_conn_selects_first_minimum [where
        svcs = "[web_instance ''A'' StatusHealthy, web_instance ''B'' StatusHealthy]"
        and conns = "[''A'' \<mapsto> 1, ''B'' \<mapsto> 1]" and k = 1] e i
    by simp
  show ?thesis using c e s h first by blast
qed

text \<open>The counts stay within 0 and the number of calls made.\<close>

lemma conn_of_within:
  "counts_within n conns \<Longrightarrow> 0 \<le> sint (conn_of conns k) \<and> sint (conn_of conns k) \<le> int n"
  by (auto simp: counts_within_def conn_of_def split: option.splits)

lemma LeastConn_Select_conns:
  "snd (LeastConn_Select svcs conns) = conns \<or>
   (\<exists>sel :: Service. snd (LeastConn_Select svcs conns) =
      conns(Service.ID sel \<mapsto> conn_of conns (Service.ID sel) + 1))"
  by (auto simp: LeastConn_Select_def split: option.splits)

lemma counts_within_mono: "counts_within n conns \<Longrightarrow> n \<le> n' \<Longrightarrow> counts_within n' conns"
  by (fastforce simp: counts_within_def)

lemma counts_within_upd:
  "counts_within n conns \<Longrightarrow> 0 \<le> sint v \<Longrightarrow> sint v \<le> int n \<Longrightarrow> counts_within n (conns(k \<mapsto> v))"
  by (simp add: counts_within_def)

lemma counts_within_Select:
  assumes "counts_within n conns" "Suc n < 2 ^ 63"
  shows "counts_within (Suc n) (snd (LeastConn_Select svcs conns))"
proof -
  have mono: "counts_within (Suc n) conns" using assms(1) by (rule counts_within_mono) simp
  from LeastConn_Select_conns [of svcs conns] show ?thesis
  proof
    assume "snd (LeastConn_Select svcs conns) = conns"
    with mono show ?thesis by simp
  next
    assume "\<exists>sel :: Service. snd (LeastConn_Select svcs conns) =
        conns(Service.ID sel \<mapsto> conn_of conns (Service.ID sel) + 1)"
    then obtain sel :: Service where s: "snd (LeastConn_Select svcs conns) =
        conns(Service.ID sel \<mapsto> conn_of conns (Service.ID sel) + 1)" by blast
    let ?c = "conn_of conns (Service.ID sel)"
    have b: "0 \<le> sint ?c" "sint ?c \<le> int n" using conn_of_within [OF assms(1)] by simp_all
    have "int (Suc n) < 2 ^ 63" using assms(2) by (metis of_nat_less_numeral_power_cancel_iff)
    then have "sint ?c < 2 ^ 63 - 1" using b(2) by simp
    then have e: "sint (?c + 1) = sint ?c + 1" by (rule sint_succ)
    have "0 \<le> sint (?c + 1)" "sint (?c + 1) \<le> int (Suc n)" unfolding e using b by simp_all
    then show ?thesis unfolding s using mono by (intro counts_within_upd)
  qed
qed

lemma counts_within_Release:
  assumes "counts_within n conns"
  shows "counts_within n (ReleaseConnection k conns)"
proof (cases "conns k")
  case None
  with assms show ?thesis by (simp add: ReleaseConnection_def)
next
  case (Some c)
  show ?thesis
  proof (cases "0 <s c")
    case False
    with Some assms show ?thesis by (simp add: ReleaseConnection_def)
  next
    case True
    then have p: "0 < sint c" by (simp add: word_sless_alt)
    have "sint c \<le> int n" using assms Some by (simp add: counts_within_def)
    then have "0 \<le> sint (c - 1)" "sint (c - 1) \<le> int n" using sint_pred [OF p] p by simp_all
    then have "counts_within n (conns(k \<mapsto> c - 1))" using assms by (intro counts_within_upd)
    then show ?thesis using Some True by (simp add: ReleaseConnection_def)
  qed
qed

lemma counts_within_run:
  assumes "counts_within n conns" "n + length ops < 2 ^ 63"
  shows "counts_within (n + length ops) (run_ConnOps ops conns)"
  using assms
proof (induction ops arbitrary: n conns)
  case Nil
  then show ?case by simp
next
  case (Cons operation ops)
  have "counts_within (Suc n) (apply_ConnOp operation conns)"
  proof (cases operation)
    case (OpSelect svcs)
    then show ?thesis using counts_within_Select [OF Cons.prems(1)] Cons.prems(2) by simp
  next
    case (OpRelease k)
    then show ?thesis
      using counts_within_mono [OF counts_within_Release [OF Cons.prems(1)], of "Suc n" k] by simp
  qed
  from Cons.IH [OF this] Cons.prems(2) show ?case by simp
qed

text \<open>
  C10. After every sequence of \<^verbatim>\<open>Select\<close> and \<^verbatim>\<open>ReleaseConnection\<close> calls on a new
  least-connection balancer, every count of outstanding connections is greater than or
  equal to zero; the counts are \<^verbatim>\<open>int64\<close>, and the sequence has fewer than \<open>2^63\<close>
  calls, the number at which \<^verbatim>\<open>++\<close> would first wrap. \<^verbatim>\<open>Select\<close> changes no
  count but that of the service it selects, to which it adds one;
  \<^verbatim>\<open>ReleaseConnection\<close> takes one from a count only when the count exists and is
  strictly positive, and changes nothing otherwise, so it leaves no count negative.
\<close>

theorem counters_never_negative:
  "(length ops < 2 ^ 63 \<longrightarrow> (\<forall>k c. run_ConnOps ops Map.empty k = Some c \<longrightarrow> 0 \<le>s c))
 \<and> (snd (LeastConn_Select svcs conns) = conns \<or>
     (\<exists>sel :: Service. fst (LeastConn_Select svcs conns) = (Some sel, None) \<and>
        snd (LeastConn_Select svcs conns) =
          conns(Service.ID sel \<mapsto> conn_of conns (Service.ID sel) + 1)))
 \<and> ReleaseConnection serviceID conns =
     (case conns serviceID of
        None \<Rightarrow> conns
      | Some count \<Rightarrow> if 0 <s count then conns(serviceID \<mapsto> count - 1) else conns)
 \<and> ((\<forall>k c. conns k = Some c \<longrightarrow> 0 \<le>s c) \<longrightarrow>
      (\<forall>k c. ReleaseConnection serviceID conns k = Some c \<longrightarrow> 0 \<le>s c))"
proof (intro conjI impI)
  assume "length ops < 2 ^ 63"
  then have "counts_within (0 + length ops) (run_ConnOps ops Map.empty)"
    by (intro counts_within_run) (simp_all add: counts_within_def)
  then show "\<forall>k c. run_ConnOps ops Map.empty k = Some c \<longrightarrow> 0 \<le>s c"
    by (simp add: counts_within_def word_sle_eq)
next
  show "snd (LeastConn_Select svcs conns) = conns \<or>
     (\<exists>sel :: Service. fst (LeastConn_Select svcs conns) = (Some sel, None) \<and>
        snd (LeastConn_Select svcs conns) =
          conns(Service.ID sel \<mapsto> conn_of conns (Service.ID sel) + 1))"
    by (auto simp: LeastConn_Select_def split: option.splits)
next
  show "ReleaseConnection serviceID conns =
     (case conns serviceID of
        None \<Rightarrow> conns
      | Some count \<Rightarrow> if 0 <s count then conns(serviceID \<mapsto> count - 1) else conns)"
    by (simp add: ReleaseConnection_def)
next
  assume a: "\<forall>k c. conns k = Some c \<longrightarrow> 0 \<le>s c"
  show "\<forall>k c. ReleaseConnection serviceID conns k = Some c \<longrightarrow> 0 \<le>s c"
  proof (intro allI impI)
    fix k c assume r: "ReleaseConnection serviceID conns k = Some c"
    show "0 \<le>s c"
    proof (cases "conns serviceID")
      case None
      with r a show ?thesis by (simp add: ReleaseConnection_def)
    next
      case (Some d)
      show ?thesis
      proof (cases "0 <s d")
        case False
        with Some r a show ?thesis by (simp add: ReleaseConnection_def)
      next
        case True
        then have "0 < sint d" by (simp add: word_sless_alt)
        then have "0 \<le> sint (d - 1)" using sint_pred [of d] by simp
        then have "0 \<le>s d - 1" by (simp add: word_sle_eq)
        moreover have "(conns(serviceID \<mapsto> d - 1)) k = Some c"
          using Some True r by (simp add: ReleaseConnection_def)
        ultimately show ?thesis using a by (cases "k = serviceID") simp_all
      qed
    qed
  qed
qed

text \<open>Two selections among two instances and three releases: the counts end at 0 and 1.\<close>

theorem counters_never_negative_witness:
  "length ops_conn < 2 ^ 63
 \<and> run_ConnOps ops_conn Map.empty = [''a'' \<mapsto> 0, ''b'' \<mapsto> 1]
 \<and> 0 \<le>s (0 :: 64 word) \<and> 0 \<le>s (1 :: 64 word)
 \<and> ReleaseConnection ''a'' [''a'' \<mapsto> 1] = [''a'' \<mapsto> 0]
 \<and> ReleaseConnection ''a'' [''a'' \<mapsto> 0] = [''a'' \<mapsto> 0]
 \<and> ReleaseConnection ''z'' [''a'' \<mapsto> 0] = [''a'' \<mapsto> 0]"
proof -
  have i: "Service.ID (web_instance ''a'' StatusHealthy) = ''a''"
    "Service.ID (web_instance ''b'' StatusHealthy) = ''b''"
    by (simp_all add: web_instance_def)
  have s1: "LeastConn_Select [web_instance ''a'' StatusHealthy, web_instance ''b'' StatusHealthy]
      Map.empty = ((Some (web_instance ''a'' StatusHealthy), None), [''a'' \<mapsto> 1])"
    by (simp add: LeastConn_Select_def conn_of_def i Let_def word_sless_alt)
  have s2: "LeastConn_Select [web_instance ''a'' StatusHealthy, web_instance ''b'' StatusHealthy]
      [''a'' \<mapsto> 1] = ((Some (web_instance ''b'' StatusHealthy), None), [''a'' \<mapsto> 1, ''b'' \<mapsto> 1])"
    by (simp add: LeastConn_Select_def conn_of_def i Let_def word_sless_alt)
  have r1: "ReleaseConnection ''a'' [''a'' \<mapsto> 1, ''b'' \<mapsto> 1] = [''a'' \<mapsto> 0, ''b'' \<mapsto> 1]"
    by (simp add: ReleaseConnection_def word_sless_alt fun_upd_twist)
  have r2: "ReleaseConnection ''a'' [''a'' \<mapsto> 0, ''b'' \<mapsto> 1] = [''a'' \<mapsto> 0, ''b'' \<mapsto> 1]"
    by (simp add: ReleaseConnection_def word_sless_alt)
  have r3: "ReleaseConnection ''z'' [''a'' \<mapsto> 0, ''b'' \<mapsto> 1] = [''a'' \<mapsto> 0, ''b'' \<mapsto> 1]"
    by (simp add: ReleaseConnection_def)
  have run: "run_ConnOps ops_conn Map.empty = [''a'' \<mapsto> 0, ''b'' \<mapsto> 1]"
    by (simp add: ops_conn_def s1 s2 r1 r2 r3)
  have len: "length ops_conn < 2 ^ 63" by (simp add: ops_conn_def)
  have all: "\<forall>k c. run_ConnOps ops_conn Map.empty k = Some c \<longrightarrow> 0 \<le>s c"
    using counters_never_negative [where ops = ops_conn] len by blast
  have "run_ConnOps ops_conn Map.empty ''a'' = Some 0" "run_ConnOps ops_conn Map.empty ''b'' = Some 1"
    by (simp_all add: run)
  with all have pos: "0 \<le>s (0 :: 64 word)" "0 \<le>s (1 :: 64 word)" by blast+
  have rel: "ReleaseConnection ''a'' [''a'' \<mapsto> 1] = [''a'' \<mapsto> 0]"
    "ReleaseConnection ''a'' [''a'' \<mapsto> 0] = [''a'' \<mapsto> 0]"
    "ReleaseConnection ''z'' [''a'' \<mapsto> 0] = [''a'' \<mapsto> 0]"
    by (simp_all add: ReleaseConnection_def word_sless_alt)
  have hyp: "\<forall>k c. [''a'' \<mapsto> (1 :: 64 word)] k = Some c \<longrightarrow> 0 \<le>s c"
    by (simp add: word_sle_eq)
  have "\<forall>k c. ReleaseConnection ''a'' [''a'' \<mapsto> 1] k = Some c \<longrightarrow> 0 \<le>s c"
    using counters_never_negative [where serviceID = "''a''" and conns = "[''a'' \<mapsto> 1]"] hyp
    by blast
  then have "0 \<le>s (0 :: 64 word)" by (simp add: rel)
  then show ?thesis
    using len run pos rel by blast
qed

section \<open>Health checks\<close>

text \<open>What a probe does to a check: after
  a failure the counter has gone up by one and the status is Critical if the counter is
  at least 3 and Warning otherwise; after a success the counter is 0 and the status is
  Passing. \<^verbatim>\<open>AddCheck\<close> stores the check with the status Passing.\<close>

lemma record_result_failure:
  "record_result (Some e) check =
     check\<lparr>Failures := Failures check + 1,
           Check.Status := (if 3 \<le>s Failures check + 1 then StatusCritical else StatusWarning)\<rparr>"
  by (simp add: record_result_def Let_def)

lemma record_result_success:
  "record_result None check = check\<lparr>Failures := 0, Check.Status := StatusPassing\<rparr>"
  by (simp add: record_result_def)

lemma performCheck_http_failure:
  assumes "Check.Type check = ''http''" "checkHTTP net = Some e"
  shows "Failures (fst (performCheck net check w)) = Failures check + 1"
    and "Check.Status (fst (performCheck net check w)) =
      (if 3 \<le>s Failures check + 1 then StatusCritical else StatusWarning)"
  using assms by (simp_all add: performCheck_def Let_def record_result_failure split: prod.splits)

lemma performCheck_http_success:
  assumes "Check.Type check = ''http''" "checkHTTP net = None"
  shows "Failures (fst (performCheck net check w)) = 0"
    and "Check.Status (fst (performCheck net check w)) = StatusPassing"
  using assms by (simp_all add: performCheck_def Let_def record_result_success split: prod.splits)

lemma two_failures_warning_three_critical:
  "Check.Status (record_result (Some e2) (record_result (Some e1) (check\<lparr>Failures := 0\<rparr>))) =
     StatusWarning"
  "Check.Status (record_result (Some e3) (record_result (Some e2)
     (record_result (Some e1) (check\<lparr>Failures := 0\<rparr>)))) = StatusCritical"
  by (simp_all add: record_result_failure word_sle_eq)

lemma AddCheck_status_and_counter:
  "Check.Status (fst (snd (AddCheck check cw))) = StatusPassing"
  "Failures (fst (snd (AddCheck check cw))) = Failures check"
  by (simp_all add: AddCheck_def Let_def split: prod.splits)

text \<open>
  C3: for every health check the state machine starts in Passing with the failure
  counter 0, so that two failures in a row give Warning and three give Critical. The
  code does not do this. \<^verbatim>\<open>AddCheck\<close> sets the status to Passing and leaves the field
  \<^verbatim>\<open>Failures\<close> as the caller passed it: the check \<open>check_web\<close>, handed over with the
  counter at 2, is stored as Passing with the counter 2, and the first failed probe
  (status 500) makes it Critical with the counter 3.
\<close>

theorem AddCheck_keeps_failure_counter:
  "fst (AddCheck check_web (NewChecker, checker_world0)) = None
 \<and> map_option Check.Status
      (map_of (checks (fst (snd (snd (AddCheck check_web (NewChecker, checker_world0))))))
         ''web-check'') = Some StatusPassing
 \<and> map_option Failures
      (map_of (checks (fst (snd (snd (AddCheck check_web (NewChecker, checker_world0))))))
         ''web-check'') = Some 2
 \<and> checkHTTP net_500 = Some ''HTTP check returned status 500''
 \<and> Failures (fst (performCheck net_500
      (fst (snd (AddCheck check_web (NewChecker, checker_world0))))
      (snd (snd (snd (AddCheck check_web (NewChecker, checker_world0))))))) = 3
 \<and> Check.Status (fst (performCheck net_500
      (fst (snd (AddCheck check_web (NewChecker, checker_world0))))
      (snd (snd (snd (AddCheck check_web (NewChecker, checker_world0))))))) = StatusCritical
 \<and> StatusCritical \<noteq> StatusWarning"
proof -
  have a: "AddCheck check_web (NewChecker, checker_world0) =
      (None,
       check_web\<lparr>Check.Interval := 10000000000, Check.Timeout := 5000000000,
                 Check.Status := StatusPassing, LastCheck := 1000\<rparr>,
       NewChecker\<lparr>checks :=
         [(''web-check'',
           check_web\<lparr>Check.Interval := 10000000000, Check.Timeout := 5000000000,
                     Check.Status := StatusPassing, LastCheck := 1000\<rparr>)]\<rparr>,
       checker_world0\<lparr>cclock := clock0\<lparr>reads := Suc 0\<rparr>\<rparr>)"
    by (simp add: AddCheck_def Let_def time_Now_def NewChecker_def checker_world0_def clock0_def
        check_web_def)
  have h: "checkHTTP net_500 = Some ''HTTP check returned status 500''"
    by (simp add: checkHTTP_def net_500_def Sprintf_d_def string_of_nat.simps)
  have t: "Check.Type (check_web\<lparr>Check.Interval := 10000000000, Check.Timeout := 5000000000,
      Check.Status := StatusPassing, LastCheck := 1000\<rparr>) = ''http''"
    "Failures (check_web\<lparr>Check.Interval := 10000000000, Check.Timeout := 5000000000,
      Check.Status := StatusPassing, LastCheck := 1000\<rparr>) = 2"
    by (simp_all add: check_web_def)
  have n: "StatusCritical \<noteq> StatusWarning" by (simp add: StatusCritical_def StatusWarning_def)
  have w: "(3 :: 64 word) \<le>s 2 + 1" by (simp add: word_sle_eq)
  show ?thesis
    using h n w by (simp add: a performCheck_http_failure [OF t(1) h] t)
qed

end
